theory Spec2Isabelle
  imports Complex_Main "HOL-Library.Sublist" "HOL-Library.AList"
begin

section \<open>Python values as the script sees them\<close>

text \<open>
  The script \<^verbatim>\<open>parser-script.py\<close> reads fio result documents with \<^verbatim>\<open>json.load\<close> and
  works on whatever Python value comes back.  The value type below has one constructor
  per type that \<^verbatim>\<open>json.load\<close> can produce.  A dict is an association list in insertion
  order, looked up with \<^const>\<open>map_of\<close>.

  Numbers: Python's \<^verbatim>\<open>int\<close> is unbounded (\<^typ>\<open>int\<close>).  Python's \<^verbatim>\<open>float\<close> is
  modelled by \<^typ>\<open>real\<close>, so every statement about a float below is a statement about
  the exact quotient, sum or square root; rounding of IEEE doubles, infinities, NaN and
  the \<^verbatim>\<open>OverflowError\<close> of converting a huge int are outside the model.
\<close>

datatype pyval =
    PNone
  | PBool bool
  | PInt int
  | PFloat real
  | PStr string
  | PList "pyval list"
  | PDict "(string \<times> pyval) list"

datatype py_error =
    FileNotFoundError
  | JSONDecodeError
  | OSError
  | UnicodeDecodeError
  | TypeError
  | AttributeError
  | KeyError
  | IndexError
  | ZeroDivisionError
  | ValueError string

text \<open>Sequencing of steps that may raise: the first exception ends the computation.\<close>

definition ebind :: "'e + 'a \<Rightarrow> ('a \<Rightarrow> 'e + 'b) \<Rightarrow> 'e + 'b" where
  "ebind m f = (case m of Inl e \<Rightarrow> Inl e | Inr x \<Rightarrow> f x)"

text \<open>Truth value of an object, as tested by \<^verbatim>\<open>if x:\<close>.\<close>

fun truthy :: "pyval \<Rightarrow> bool" where
  "truthy PNone = False"
| "truthy (PBool b) = b"
| "truthy (PInt i) = (i \<noteq> 0)"
| "truthy (PFloat r) = (r \<noteq> 0)"
| "truthy (PStr s) = (s \<noteq> [])"
| "truthy (PList xs) = (xs \<noteq> [])"
| "truthy (PDict d) = (d \<noteq> [])"

text \<open>\<^verbatim>\<open>bool\<close> is a subclass of \<^verbatim>\<open>int\<close>: \<^verbatim>\<open>True\<close> counts as 1 in arithmetic.\<close>

fun int_of :: "pyval \<Rightarrow> int option" where
  "int_of (PBool b) = Some (if b then 1 else 0)"
| "int_of (PInt i) = Some i"
| "int_of _ = None"

fun num_of :: "pyval \<Rightarrow> real option" where
  "num_of (PBool b) = Some (if b then 1 else 0)"
| "num_of (PInt i) = Some (of_int i)"
| "num_of (PFloat r) = Some r"
| "num_of _ = None"

text \<open>\<^verbatim>\<open>x + y\<close>: int with int stays int, a float operand makes a float, two strings or two
  lists concatenate, anything else raises \<^verbatim>\<open>TypeError\<close>.\<close>

definition py_add :: "pyval \<Rightarrow> pyval \<Rightarrow> py_error + pyval" where
  "py_add x y =
     (case (int_of x, int_of y) of
        (Some a, Some b) \<Rightarrow> Inr (PInt (a + b))
      | _ \<Rightarrow>
       (case (num_of x, num_of y) of
          (Some a, Some b) \<Rightarrow> Inr (PFloat (a + b))
        | _ \<Rightarrow>
         (case (x, y) of
            (PStr a, PStr b) \<Rightarrow> Inr (PStr (a @ b))
          | (PList a, PList b) \<Rightarrow> Inr (PList (a @ b))
          | _ \<Rightarrow> Inl TypeError)))"

text \<open>\<^verbatim>\<open>x / c\<close> for a float constant \<^verbatim>\<open>c\<close>: true division, defined on numbers only.\<close>

definition py_truediv :: "pyval \<Rightarrow> real \<Rightarrow> py_error + pyval" where
  "py_truediv x c =
     (case num_of x of
        None \<Rightarrow> Inl TypeError
      | Some a \<Rightarrow> if c = 0 then Inl ZeroDivisionError else Inr (PFloat (a / c)))"

text \<open>\<^verbatim>\<open>x.get(key, default)\<close>: only a dict has the method.\<close>

definition dict_get :: "pyval \<Rightarrow> string \<Rightarrow> pyval \<Rightarrow> py_error + pyval" where
  "dict_get x key dflt =
     (case x of
        PDict d \<Rightarrow> Inr (case map_of d key of None \<Rightarrow> dflt | Some v \<Rightarrow> v)
      | _ \<Rightarrow> Inl AttributeError)"

text \<open>\<^verbatim>\<open>x[key]\<close> with a string key: a dict raises \<^verbatim>\<open>KeyError\<close> on a missing key; a list
  or a string wants an integer index, and the other types are not subscriptable.\<close>

definition py_getitem :: "pyval \<Rightarrow> string \<Rightarrow> py_error + pyval" where
  "py_getitem x key =
     (case x of
        PDict d \<Rightarrow> (case map_of d key of None \<Rightarrow> Inl KeyError | Some v \<Rightarrow> Inr v)
      | _ \<Rightarrow> Inl TypeError)"

text \<open>\<^verbatim>\<open>x[0]\<close>: the first element of a list, the first character of a string; the keys
  of a dict that came from JSON are strings, so the key \<^verbatim>\<open>0\<close> is never there.\<close>

definition py_getitem0 :: "pyval \<Rightarrow> py_error + pyval" where
  "py_getitem0 x =
     (case x of
        PList xs \<Rightarrow> (case xs of [] \<Rightarrow> Inl IndexError | v # _ \<Rightarrow> Inr v)
      | PStr s \<Rightarrow> (case s of [] \<Rightarrow> Inl IndexError | c # _ \<Rightarrow> Inr (PStr [c]))
      | PDict d \<Rightarrow> Inl KeyError
      | _ \<Rightarrow> Inl TypeError)"

definition py_len :: "pyval \<Rightarrow> py_error + nat" where
  "py_len x =
     (case x of
        PStr s \<Rightarrow> Inr (length s)
      | PList xs \<Rightarrow> Inr (length xs)
      | PDict d \<Rightarrow> Inr (length d)
      | _ \<Rightarrow> Inl TypeError)"

text \<open>\<^verbatim>\<open>key in x\<close> for a string \<^verbatim>\<open>key\<close>: a key of the dict, an element of the list, a
  substring of the string; the other types are not iterable.\<close>

definition py_contains :: "string \<Rightarrow> pyval \<Rightarrow> py_error + bool" where
  "py_contains key x =
     (case x of
        PDict d \<Rightarrow> Inr (map_of d key \<noteq> None)
      | PList xs \<Rightarrow> Inr (PStr key \<in> set xs)
      | PStr s \<Rightarrow> Inr (sublist key s)
      | _ \<Rightarrow> Inl TypeError)"

section \<open>The Extractor: \<^verbatim>\<open>parse_fio_output\<close>\<close>

type_synonym metrics = "(string \<times> pyval) list"
type_synonym units = "(string \<times> string) list"

text \<open>\<^verbatim>\<open>job_data.get(side, {}).get(key, default)\<close>\<close>

definition side_get :: "pyval \<Rightarrow> string \<Rightarrow> string \<Rightarrow> pyval \<Rightarrow> py_error + pyval" where
  "side_get job_data side key dflt =
     ebind (dict_get job_data side (PDict [])) (\<lambda>s. dict_get s key dflt)"

text \<open>\<^verbatim>\<open>job_data[side][key]\<close>\<close>

definition sub2 :: "pyval \<Rightarrow> string \<Rightarrow> string \<Rightarrow> py_error + pyval" where
  "sub2 job_data side key = ebind (py_getitem job_data side) (\<lambda>s. py_getitem s key)"

text \<open>One arm of the \<^verbatim>\<open>if\<close>/\<^verbatim>\<open>elif\<close> chain of lines 54 to 72: test the candidate; when it
  is true, read it again by subscript and fix the factor; otherwise go on with the rest.\<close>

definition probe ::
  "pyval \<Rightarrow> string \<Rightarrow> string \<Rightarrow> real \<Rightarrow> (py_error + pyval \<times> real) \<Rightarrow> py_error + pyval \<times> real" where
  "probe job_data side key factor rest =
     ebind (side_get job_data side key PNone) (\<lambda>c.
       if truthy c then ebind (sub2 job_data side key) (\<lambda>latency_data. Inr (latency_data, factor))
       else rest)"

text \<open>Lines 48 to 72: \<^verbatim>\<open>latency_data\<close> starts as \<^verbatim>\<open>None\<close> and \<^verbatim>\<open>conversion_factor\<close> as
  \<^verbatim>\<open>1.0\<close>; the chain tries read ns, us, ms, then write ns, us, ms.\<close>

definition select_latency :: "pyval \<Rightarrow> py_error + pyval \<times> real" where
  "select_latency job_data =
     probe job_data ''read'' ''lat_ns'' 1000000
    (probe job_data ''read'' ''lat_us'' 1000
    (probe job_data ''read'' ''lat_ms'' 1
    (probe job_data ''write'' ''lat_ns'' 1000000
    (probe job_data ''write'' ''lat_us'' 1000
    (probe job_data ''write'' ''lat_ms'' 1
    (Inr (PNone, 1)))))))"

text \<open>Lines 74 to 84: the two latency metrics and their common unit.\<close>

definition latency_metrics :: "pyval \<Rightarrow> real \<Rightarrow> py_error + pyval \<times> pyval \<times> string" where
  "latency_metrics latency_data conversion_factor =
     (if truthy latency_data then
        ebind (ebind (dict_get latency_data ''mean'' (PInt 0))
                 (\<lambda>m. py_truediv m conversion_factor)) (\<lambda>avg_latency.
        ebind (ebind (dict_get latency_data ''stddev'' (PInt 0))
                 (\<lambda>s. py_truediv s conversion_factor)) (\<lambda>stdev_latency.
        Inr (avg_latency, stdev_latency, ''ms'')))
      else Inr (PInt 0, PInt 0, ''N/A''))"

text \<open>Lines 30 to 90, for the first job entry \<^verbatim>\<open>job_data\<close>.  Both dicts start empty and
  each of the seven keys is assigned once, so the result lists them in assignment order.\<close>

definition job_metrics :: "pyval \<Rightarrow> py_error + metrics \<times> units" where
  "job_metrics job_data =
     ebind (dict_get job_data ''usr_cpu'' (PInt 0)) (\<lambda>cpu_usr.
     ebind (dict_get job_data ''sys_cpu'' (PInt 0)) (\<lambda>cpu_sys.
     ebind (py_add cpu_usr cpu_sys) (\<lambda>cpu_total.
     ebind (side_get job_data ''read'' ''bw'' (PInt 0)) (\<lambda>read_bw.
     ebind (side_get job_data ''write'' ''bw'' (PInt 0)) (\<lambda>write_bw.
     ebind (ebind (py_add read_bw write_bw) (\<lambda>s. py_truediv s 1024)) (\<lambda>bandwidth.
     ebind (select_latency job_data) (\<lambda>(latency_data, conversion_factor).
     ebind (latency_metrics latency_data conversion_factor)
       (\<lambda>(avg_latency, stdev_latency, latency_unit).
     ebind (side_get job_data ''read'' ''iops'' (PInt 0)) (\<lambda>read_iops.
     ebind (side_get job_data ''write'' ''iops'' (PInt 0)) (\<lambda>write_iops.
     ebind (py_add read_iops write_iops) (\<lambda>iops.
     Inr ([(''cpu_usr'', cpu_usr), (''cpu_sys'', cpu_sys), (''cpu_total'', cpu_total),
           (''bandwidth'', bandwidth), (''avg_latency'', avg_latency),
           (''stdev_latency'', stdev_latency), (''iops'', iops)],
          [(''cpu_usr'', ''%''), (''cpu_sys'', ''%''), (''cpu_total'', ''%''),
           (''bandwidth'', ''MiB/s''), (''avg_latency'', latency_unit),
           (''stdev_latency'', latency_unit), (''iops'', ''ops/s'')]))))))))))))"

text \<open>Lines 28 to 92, for the value \<^verbatim>\<open>data\<close> that \<^verbatim>\<open>json.load\<close> returned.  The \<^verbatim>\<open>and\<close>
  of line 28 evaluates its right side only when the left side is true.\<close>

definition extract_metrics :: "pyval \<Rightarrow> py_error + metrics \<times> units" where
  "extract_metrics data =
     ebind (py_contains ''jobs'' data) (\<lambda>has_jobs.
       if \<not> has_jobs then Inr ([], [])
       else ebind (py_getitem data ''jobs'') (\<lambda>jobs.
            ebind (py_len jobs) (\<lambda>n.
              if n > 0 then ebind (py_getitem0 jobs) job_metrics
              else Inr ([], []))))"

text \<open>
  What the script does to the outside world is kept as a list of events, in order.
  \<^verbatim>\<open>open\<close> followed by \<^verbatim>\<open>json.load\<close> is a library call: the environment gives its
  outcome for each path, either the loaded value or the exception raised.
\<close>

datatype event =
    OpenRead string
  | Print string
  | OpenWrite string
  | WriteRows string "string list list"

type_synonym loader = "string \<Rightarrow> py_error + pyval"

text \<open>Lines 9 to 92.  Only \<^verbatim>\<open>FileNotFoundError\<close> and \<^verbatim>\<open>json.JSONDecodeError\<close> have an
  \<^verbatim>\<open>except\<close> clause; any other exception of the \<^verbatim>\<open>try\<close> block goes on to the caller.\<close>

definition parse_fio_output :: "loader \<Rightarrow> string \<Rightarrow> event list \<times> (py_error + metrics \<times> units)" where
  "parse_fio_output load file_path =
     (case load file_path of
        Inl FileNotFoundError \<Rightarrow>
          ([OpenRead file_path, Print (''Error: File not found at '' @ file_path)], Inr ([], []))
      | Inl JSONDecodeError \<Rightarrow>
          ([OpenRead file_path, Print (''Error: Invalid JSON in '' @ file_path)], Inr ([], []))
      | Inl e \<Rightarrow> ([OpenRead file_path], Inl e)
      | Inr data \<Rightarrow> ([OpenRead file_path], extract_metrics data))"

section \<open>File names: \<^verbatim>\<open>generate_fio_filenames\<close>\<close>

text \<open>\<^verbatim>\<open>str(n)\<close> for an integer, as an f-string renders it.\<close>

fun str_nat :: "nat \<Rightarrow> string" where
  "str_nat n =
     (if n < 10 then [''0123456789'' ! n]
      else str_nat (n div 10) @ [''0123456789'' ! (n mod 10)])"

declare str_nat.simps [simp del]

definition str_int :: "int \<Rightarrow> string" where
  "str_int i = (if i < 0 then ''-'' @ str_nat (nat (- i)) else str_nat (nat i))"

text \<open>Lines 115 to 126.  \<^verbatim>\<open>isinstance(x, int)\<close> holds for an int and for a bool.\<close>

definition generate_fio_filenames :: "pyval \<Rightarrow> pyval \<Rightarrow> py_error + string list" where
  "generate_fio_filenames num_iterations prefix_arg =
     (case int_of num_iterations of
        None \<Rightarrow> Inl (ValueError ''num_iterations must be a positive integer.'')
      | Some n \<Rightarrow>
          if n \<le> 0 then Inl (ValueError ''num_iterations must be a positive integer.'')
          else
            (case prefix_arg of
               PStr p \<Rightarrow>
                 if p = [] then Inl (ValueError ''prefix must be a non-empty string.'')
                 else Inr (map (\<lambda>i. p @ str_int i @ ''.json'') [1..n])
             | _ \<Rightarrow> Inl (ValueError ''prefix must be a non-empty string.'')))"

section \<open>Rendering\<close>

text \<open>
  \<^verbatim>\<open>f"{value:.2f}"\<close>: a number is rendered with two decimals, ties going to the even
  digit; a string raises \<^verbatim>\<open>ValueError\<close> and any other object \<^verbatim>\<open>TypeError\<close>.
\<close>

definition round_half_even :: "real \<Rightarrow> int" where
  "round_half_even r =
     (let f = \<lfloor>r\<rfloor>; d = r - of_int f
      in if d < 1 / 2 then f else if 1 / 2 < d then f + 1 else if even f then f else f + 1)"

definition fmt2_real :: "real \<Rightarrow> string" where
  "fmt2_real x =
     (let n = nat (round_half_even (\<bar>x\<bar> * 100))
      in (if x < 0 then ''-'' else []) @ str_nat (n div 100) @ ''.''
         @ [''0123456789'' ! (n mod 100 div 10), ''0123456789'' ! (n mod 10)])"

definition fmt2 :: "pyval \<Rightarrow> py_error + string" where
  "fmt2 v =
     (case num_of v of
        Some x \<Rightarrow> Inr (fmt2_real x)
      | None \<Rightarrow>
          (case v of
             PStr s \<Rightarrow> Inl (ValueError ''Unknown format code f for object of type str'')
           | _ \<Rightarrow> Inl TypeError))"

text \<open>\<^verbatim>\<open>metric_name.replace('_', ' ').title()\<close>, on ASCII names: a letter that follows a
  letter is lower case, any other letter is upper case.\<close>

definition upper_char :: "char \<Rightarrow> char" where
  "upper_char c =
     (case map_of (zip ''abcdefghijklmnopqrstuvwxyz'' ''ABCDEFGHIJKLMNOPQRSTUVWXYZ'') c of
        Some u \<Rightarrow> u | None \<Rightarrow> c)"

definition lower_char :: "char \<Rightarrow> char" where
  "lower_char c =
     (case map_of (zip ''ABCDEFGHIJKLMNOPQRSTUVWXYZ'' ''abcdefghijklmnopqrstuvwxyz'') c of
        Some l \<Rightarrow> l | None \<Rightarrow> c)"

definition is_letter :: "char \<Rightarrow> bool" where
  "is_letter c \<longleftrightarrow> c \<in> set ''abcdefghijklmnopqrstuvwxyzABCDEFGHIJKLMNOPQRSTUVWXYZ''"

fun title_from :: "bool \<Rightarrow> string \<Rightarrow> string" where
  "title_from prev_cased [] = []"
| "title_from prev_cased (c # cs) =
     (if is_letter c
      then (if prev_cased then lower_char c else upper_char c) # title_from True cs
      else c # title_from False cs)"

definition display_name :: "string \<Rightarrow> string" where
  "display_name metric_name =
     title_from False (map (\<lambda>c. if c = CHR ''_'' then CHR '' '' else c) metric_name)"

text \<open>\<^verbatim>\<open>os.path.basename\<close>: what follows the last slash.\<close>

definition basename :: "string \<Rightarrow> string" where
  "basename p = rev (takeWhile (\<lambda>c. c \<noteq> CHR ''/'') (rev p))"

section \<open>The Aggregator: \<^verbatim>\<open>main\<close>\<close>

text \<open>The variables that \<^verbatim>\<open>main\<close> fills while it goes through the files (lines 162
  to 170).  The dicts are association lists in insertion order; \<^const>\<open>AList.update\<close>
  overwrites a key in place and appends a new one, as a dict assignment does.\<close>

datatype cell = CInt int | CStr string

type_synonym run_row = "(string \<times> cell) list"

record run_state =
  all_metrics :: "(string \<times> pyval list) list"
  global_units_map :: units
  avg_latency_values :: "pyval list"
  stdev_latency_values :: "pyval list"
  individual_run_data :: "run_row list"

definition init_state :: run_state where
  "init_state =
     \<lparr>all_metrics = [], global_units_map = [], avg_latency_values = [],
      stdev_latency_values = [], individual_run_data = []\<rparr>"

text \<open>\<^verbatim>\<open>all_metrics[key].append(value)\<close> on a \<^verbatim>\<open>defaultdict(list)\<close>\<close>

definition series_append ::
  "(string \<times> pyval list) list \<Rightarrow> string \<Rightarrow> pyval \<Rightarrow> (string \<times> pyval list) list" where
  "series_append am key v =
     (case map_of am key of
        None \<Rightarrow> am @ [(key, [v])]
      | Some vs \<Rightarrow> AList.update key (vs @ [v]) am)"

text \<open>\<^verbatim>\<open>global_units_map.update(units)\<close>\<close>

definition units_update :: "units \<Rightarrow> units \<Rightarrow> units" where
  "units_update g us = fold (\<lambda>(k, u) g'. AList.update k u g') us g"

text \<open>\<^verbatim>\<open>d.get(key, default)\<close> on a dict of strings\<close>

definition get_or :: "(string \<times> 'v) list \<Rightarrow> string \<Rightarrow> 'v \<Rightarrow> 'v" where
  "get_or d key dflt = (case map_of d key of None \<Rightarrow> dflt | Some v \<Rightarrow> v)"

text \<open>Lines 182 to 186: the loop over \<^verbatim>\<open>metrics.items()\<close>.  The f-string is evaluated
  before \<^verbatim>\<open>print\<close> is called, so a value that cannot be formatted raises before
  anything of that step is printed or stored.\<close>

fun metrics_loop ::
  "units \<Rightarrow> metrics \<Rightarrow> (string \<times> pyval list) list \<times> run_row
     \<Rightarrow> event list \<times> (py_error + (string \<times> pyval list) list \<times> run_row)" where
  "metrics_loop us [] acc = ([], Inr acc)"
| "metrics_loop us ((key, v) # rest) (am, run_data) =
     (let unit = get_or us key [] in
      case fmt2 v of
        Inl e \<Rightarrow> ([], Inl e)
      | Inr s \<Rightarrow>
          (case metrics_loop us rest
                  (series_append am key v,
                   AList.update (key @ '' ('' @ unit @ '')'') (CStr s) run_data) of
             (evs, r) \<Rightarrow> (Print (''    '' @ key @ '': '' @ s @ '' '' @ unit) # evs, r)))"

text \<open>Lines 191 to 194: a latency value is collected when the key is there and its
  unit is not \<^verbatim>\<open>N/A\<close>.\<close>

definition collect_latency :: "metrics \<Rightarrow> units \<Rightarrow> string \<Rightarrow> pyval list \<Rightarrow> pyval list" where
  "collect_latency ms us key vals =
     (case map_of ms key of
        Some v \<Rightarrow> if map_of us key \<noteq> Some ''N/A'' then vals @ [v] else vals
      | None \<Rightarrow> vals)"

text \<open>Lines 174 to 196: one pass of the loop, for the file at index \<^verbatim>\<open>i\<close>.\<close>

definition process_file ::
  "loader \<Rightarrow> nat \<Rightarrow> string \<Rightarrow> run_state \<Rightarrow> event list \<times> (py_error + run_state)" where
  "process_file load i file_path st =
     (case parse_fio_output load file_path of
        (evs, Inl e) \<Rightarrow> (Print (''Parsing '' @ file_path @ ''...'') # evs, Inl e)
      | (evs, Inr (ms, us)) \<Rightarrow>
          if ms \<noteq> [] then
            (case metrics_loop us ms (all_metrics st, [(''Run'', CInt (int i + 1))]) of
               (evs', Inl e) \<Rightarrow>
                 (Print (''Parsing '' @ file_path @ ''...'') # evs
                    @ Print (''  Results from '' @ basename file_path @ '':'') # evs',
                  Inl e)
             | (evs', Inr (am, run_data)) \<Rightarrow>
                 (Print (''Parsing '' @ file_path @ ''...'') # evs
                    @ Print (''  Results from '' @ basename file_path @ '':'') # evs',
                  Inr \<lparr>all_metrics = am,
                       global_units_map = units_update (global_units_map st) us,
                       avg_latency_values =
                         collect_latency ms us ''avg_latency'' (avg_latency_values st),
                       stdev_latency_values =
                         collect_latency ms us ''stdev_latency'' (stdev_latency_values st),
                       individual_run_data = individual_run_data st @ [run_data]\<rparr>))
          else
            (Print (''Parsing '' @ file_path @ ''...'') # evs
               @ [Print (''  Could not extract metrics from '' @ file_path @ ''. Skipping.'')],
             Inr st))"

text \<open>Line 173: the loop over \<^verbatim>\<open>enumerate(generated_fio_files)\<close>, from index \<^verbatim>\<open>i\<close>.\<close>

fun files_loop ::
  "loader \<Rightarrow> nat \<Rightarrow> string list \<Rightarrow> run_state \<Rightarrow> event list \<times> (py_error + run_state)" where
  "files_loop load i [] st = ([], Inr st)"
| "files_loop load i (file_path # rest) st =
     (case process_file load i file_path st of
        (evs, Inl e) \<Rightarrow> (evs, Inl e)
      | (evs, Inr st') \<Rightarrow>
          (case files_loop load (Suc i) rest st' of (evs', r) \<Rightarrow> (evs @ evs', r)))"

text \<open>\<^verbatim>\<open>sum(values)\<close> starts from the int 0 and adds each value, so it raises
  \<^verbatim>\<open>TypeError\<close> at the first value that is not a number; on numbers it is their sum.
  The list of the numbers is kept for the lines that follow.\<close>

fun nums_of :: "pyval list \<Rightarrow> py_error + real list" where
  "nums_of [] = Inr []"
| "nums_of (v # vs) =
     (case num_of v of
        None \<Rightarrow> Inl TypeError
      | Some x \<Rightarrow> ebind (nums_of vs) (\<lambda>xs. Inr (x # xs)))"

text \<open>\<^verbatim>\<open>min\<close> and \<^verbatim>\<open>max\<close> of a list of numbers; on an empty list Python raises.\<close>

definition py_min :: "real list \<Rightarrow> py_error + real" where
  "py_min xs =
     (case xs of
        [] \<Rightarrow> Inl (ValueError ''min() arg is an empty sequence'')
      | x # r \<Rightarrow> Inr (fold min r x))"

definition py_max :: "real list \<Rightarrow> py_error + real" where
  "py_max xs =
     (case xs of
        [] \<Rightarrow> Inl (ValueError ''max() arg is an empty sequence'')
      | x # r \<Rightarrow> Inr (fold max r x))"

text \<open>Lines 207 to 227: the summary row of one metric.\<close>

definition summary_row :: "units \<Rightarrow> string \<Rightarrow> pyval list \<Rightarrow> py_error + string list" where
  "summary_row gum metric_name vals =
     (if vals \<noteq> [] then
        ebind (nums_of vals) (\<lambda>xs.
        let avg_value = sum_list xs / real (length xs);
            unit = get_or gum metric_name []
        in
        ebind (py_min xs) (\<lambda>min_value.
        ebind (py_max xs) (\<lambda>max_value.
        let stdev_value =
              (if length xs > 1
               then sqrt (sum_list (map (\<lambda>x. (x - avg_value) ^ 2) xs) / real (length xs - 1))
               else 0)
        in
        Inr [display_name metric_name,
             fmt2_real avg_value,
             if length xs > 1 then fmt2_real stdev_value else ''N/A'',
             unit,
             fmt2_real min_value,
             fmt2_real max_value])))
      else
        Inr [display_name metric_name, ''No data'', ''N/A'', ''N/A'', ''N/A'', ''N/A''])"

text \<open>Line 206: the loop over \<^verbatim>\<open>all_metrics.items()\<close>.\<close>

fun summary_rows :: "units \<Rightarrow> (string \<times> pyval list) list \<Rightarrow> py_error + string list list" where
  "summary_rows gum [] = Inr []"
| "summary_rows gum ((metric_name, vals) # rest) =
     ebind (summary_row gum metric_name vals) (\<lambda>row.
     ebind (summary_rows gum rest) (\<lambda>rows. Inr (row # rows)))"

text \<open>Lines 230 to 241 and 243 to 254: the extra row of a latency metric, present only
  when some value was collected.\<close>

definition latency_row :: "string \<Rightarrow> string \<Rightarrow> units \<Rightarrow> pyval list \<Rightarrow> py_error + string list list" where
  "latency_row label key gum vals =
     (if vals \<noteq> [] then
        ebind (nums_of vals) (\<lambda>xs.
        ebind (py_min xs) (\<lambda>min_latency.
        ebind (py_max xs) (\<lambda>max_latency.
        Inr [[label, [], [], get_or gum key ''ms'',
              fmt2_real min_latency, fmt2_real max_latency]])))
      else Inr [])"

text \<open>Lines 203 to 254: \<^verbatim>\<open>aggregated_results\<close>.\<close>

definition aggregate :: "run_state \<Rightarrow> py_error + string list list" where
  "aggregate st =
     ebind (summary_rows (global_units_map st) (all_metrics st)) (\<lambda>rows.
     ebind (latency_row ''Average Latency'' ''avg_latency''
              (global_units_map st) (avg_latency_values st)) (\<lambda>avg_rows.
     ebind (latency_row ''Standard Deviation Latency'' ''stdev_latency''
              (global_units_map st) (stdev_latency_values st)) (\<lambda>stdev_rows.
     Inr ([''Metric'', ''Average'', ''Std Dev'', ''Unit'', ''Min'', ''Max'']
          # rows @ avg_rows @ stdev_rows))))"

text \<open>Lines 265 to 269: the header of the per-run table.\<close>

definition add_fieldname :: "string \<Rightarrow> string list \<Rightarrow> string list" where
  "add_fieldname key fieldnames = (if key \<notin> set fieldnames then fieldnames @ [key] else fieldnames)"

definition fieldnames_of :: "run_row list \<Rightarrow> string list" where
  "fieldnames_of rows = fold (\<lambda>row fs. fold add_fieldname (map fst row) fs) rows [''Run'']"

text \<open>\<^verbatim>\<open>csv.writer\<close> writes \<^verbatim>\<open>str(x)\<close> for a cell that is not a string.\<close>

fun render_cell :: "cell \<Rightarrow> string" where
  "render_cell (CInt i) = str_int i"
| "render_cell (CStr s) = s"

text \<open>Line 274: \<^verbatim>\<open>[row.get(key, '') for key in fieldnames]\<close>\<close>

definition render_row :: "string list \<Rightarrow> run_row \<Rightarrow> string list" where
  "render_row fieldnames row = map (\<lambda>key. render_cell (get_or row key (CStr []))) fieldnames"

text \<open>Lines 263 to 280: the rows handed to the CSV writer, in order.\<close>

definition csv_rows :: "run_row list \<Rightarrow> string list list \<Rightarrow> string list list" where
  "csv_rows rows aggregated_results =
     (if rows \<noteq> [] then
        [[''Individual Run Metrics''], fieldnames_of rows]
        @ map (render_row (fieldnames_of rows)) rows @ [[]]
      else [])
     @ [[''Aggregated Metrics'']] @ aggregated_results"

text \<open>
  Lines 157 to 285.  \<^verbatim>\<open>argparse\<close> hands over an int and two strings.  Writing the
  report is a library call: \<^verbatim>\<open>write_error\<close> tells, for a path, whether opening or
  writing raises \<^verbatim>\<open>IOError\<close>, and with which text; what a failed write leaves in the
  file is not modelled.  The result is the list of events and the exception that
  left \<^verbatim>\<open>main\<close>, if any.
\<close>

definition main ::
  "loader \<Rightarrow> (string \<Rightarrow> string option) \<Rightarrow> int \<Rightarrow> string \<Rightarrow> string
     \<Rightarrow> event list \<times> py_error option" where
  "main load write_error iterations output_filepath csv_output =
     (case generate_fio_filenames (PInt iterations) (PStr output_filepath) of
        Inl e \<Rightarrow> ([], Some e)
      | Inr generated_fio_files \<Rightarrow>
          (case files_loop load 0 generated_fio_files init_state of
             (evs, Inl e) \<Rightarrow> (Print (CHR 0x0A # ''--- Parsing FIO Output Files ---'') # evs, Some e)
           | (evs, Inr st) \<Rightarrow>
               if all_metrics st = [] then
                 (Print (CHR 0x0A # ''--- Parsing FIO Output Files ---'') # evs
                    @ [Print ''No metrics extracted from any FIO output files. Exiting.''],
                  None)
               else
                 (case aggregate st of
                    Inl e \<Rightarrow> (Print (CHR 0x0A # ''--- Parsing FIO Output Files ---'') # evs, Some e)
                  | Inr aggregated_results \<Rightarrow>
                      (case write_error csv_output of
                         Some msg \<Rightarrow>
                           (Print (CHR 0x0A # ''--- Parsing FIO Output Files ---'') # evs
                              @ [OpenWrite csv_output,
                                 Print (''Error writing to CSV file '' @ csv_output @ '': '' @ msg),
                                 Print (CHR 0x0A # ''Combined FIO benchmark and parsing script completed.'')],
                            None)
                       | None \<Rightarrow>
                           (Print (CHR 0x0A # ''--- Parsing FIO Output Files ---'') # evs
                              @ [OpenWrite csv_output,
                                 WriteRows csv_output
                                   (csv_rows (individual_run_data st) aggregated_results),
                                 Print (CHR 0x0A # ''Results successfully written to '' @ csv_output),
                                 Print (CHR 0x0A # ''Combined FIO benchmark and parsing script completed.'')],
                            None)))))"

section \<open>The specification's notions, for comparison with the code\<close>

text \<open>The first job entry of a document: the first element of the list under \<^verbatim>\<open>jobs\<close>.\<close>

definition first_job :: "pyval \<Rightarrow> pyval option" where
  "first_job data =
     (case data of
        PDict d \<Rightarrow> (case map_of d ''jobs'' of Some (PList (j # _)) \<Rightarrow> Some j | _ \<Rightarrow> None)
      | _ \<Rightarrow> None)"






text \<open>The file names of a valid configuration: the prefix, the 1-based run index, \<^verbatim>\<open>.json\<close>.\<close>

definition run_files :: "int \<Rightarrow> string \<Rightarrow> string list" where
  "run_files iterations pfx = map (\<lambda>i. pfx @ str_int i @ ''.json'') [1..iterations]"

text \<open>Events that touch the report file, and events that open a run document.\<close>

fun is_write_event :: "event \<Rightarrow> bool" where
  "is_write_event (OpenWrite p) = True"
| "is_write_event (WriteRows p rows) = True"
| "is_write_event _ = False"

fun is_read_event :: "event \<Rightarrow> bool" where
  "is_read_event (OpenRead p) = True"
| "is_read_event _ = False"

text \<open>The summary statistics in the specification's words: the mean \<open>\<Sum>values / n\<close> and the
  sample standard deviation \<open>sqrt (\<Sum>(x - mean)\<^sup>2 / (n - 1))\<close>.\<close>

definition mean :: "real list \<Rightarrow> real" where
  "mean xs = sum_list xs / real (length xs)"

definition sample_stdev :: "real list \<Rightarrow> real" where
  "sample_stdev xs = sqrt ((\<Sum>x\<leftarrow>xs. (x - mean xs)\<^sup>2) / (real (length xs) - 1))"

text \<open>The runs that yielded metrics, in order, each with its 1-based run number: a
  document counts when the Extractor returned a non-empty result for it.\<close>

record run =
  run_no :: nat
  run_metrics :: metrics
  run_units :: units

fun successful_runs :: "loader \<Rightarrow> nat \<Rightarrow> string list \<Rightarrow> run list" where
  "successful_runs load i [] = []"
| "successful_runs load i (fp # rest) =
     (case snd (parse_fio_output load fp) of
        Inr (ms, us) \<Rightarrow>
          (if ms \<noteq> [] then [\<lparr>run_no = Suc i, run_metrics = ms, run_units = us\<rparr>] else [])
      | Inl e \<Rightarrow> [])
     @ successful_runs load (Suc i) rest"

text \<open>The values that a run contributes to the series of the metric \<^verbatim>\<open>key\<close>, and the
  latency value that it contributes to the cross-run latency rows: none when the unit
  of the metric is \<^verbatim>\<open>N/A\<close>.\<close>

definition values_for :: "string \<Rightarrow> metrics \<Rightarrow> pyval list" where
  "values_for key ms = map snd (filter (\<lambda>kv. fst kv = key) ms)"

definition valid_latency :: "string \<Rightarrow> metrics \<Rightarrow> units \<Rightarrow> pyval list" where
  "valid_latency key ms us =
     (if map_of us key = Some ''N/A'' then []
      else (case map_of ms key of Some v \<Rightarrow> [v] | None \<Rightarrow> []))"

text \<open>A column of the per-run table: the metric name annotated with its unit.  The
  elements of a list in first-seen order: \<^const>\<open>remdups\<close> keeps the last occurrence
  of each element, so the list is reversed before and after.\<close>

definition annotated :: "units \<Rightarrow> string \<Rightarrow> string" where
  "annotated us key = key @ '' ('' @ get_or us key [] @ '')''"

definition first_seen :: "'a list \<Rightarrow> 'a list" where
  "first_seen xs = rev (remdups (rev xs))"

text \<open>The seven metric names of the Extractor, in the order in which it assigns them.\<close>

definition metric_names :: "string list" where
  "metric_names = [''cpu_usr'', ''cpu_sys'', ''cpu_total'', ''bandwidth'', ''avg_latency'',
                   ''stdev_latency'', ''iops'']"

section \<open>Example documents\<close>

text \<open>A job entry with both \<^verbatim>\<open>read.lat_ns\<close> and \<^verbatim>\<open>read.lat_us\<close>, a mean of 5,000,000 ns,
  \<^verbatim>\<open>read.bw = 2048\<close> and \<^verbatim>\<open>write.bw = 0\<close>; the metrics and units it yields; and an
  job entry with no latency field at all; and an environment in which run 1 and run 3
  have a document, run 2 has none, and three more files are broken in different ways.\<close>

definition job_ns_us :: pyval where
  "job_ns_us =
     PDict [(''usr_cpu'', PFloat 1.5), (''sys_cpu'', PFloat 0.5),
            (''read'', PDict [(''bw'', PInt 2048), (''iops'', PInt 512),
                              (''lat_ns'', PDict [(''mean'', PInt 5000000), (''stddev'', PInt 250000)]),
                              (''lat_us'', PDict [(''mean'', PInt 9), (''stddev'', PInt 1)])]),
            (''write'', PDict [(''bw'', PInt 0), (''iops'', PInt 0)])]"

definition doc_ns_us :: pyval where
  "doc_ns_us = PDict [(''fio version'', PStr ''fio-3.36''), (''jobs'', PList [job_ns_us])]"

definition metrics_ns_us :: metrics where
  "metrics_ns_us =
     [(''cpu_usr'', PFloat 1.5), (''cpu_sys'', PFloat 0.5), (''cpu_total'', PFloat 2),
      (''bandwidth'', PFloat 2), (''avg_latency'', PFloat 5),
      (''stdev_latency'', PFloat 0.25), (''iops'', PInt 512)]"

definition units_ms :: units where
  "units_ms =
     [(''cpu_usr'', ''%''), (''cpu_sys'', ''%''), (''cpu_total'', ''%''),
      (''bandwidth'', ''MiB/s''), (''avg_latency'', ''ms''),
      (''stdev_latency'', ''ms''), (''iops'', ''ops/s'')]"

definition job_no_latency :: pyval where
  "job_no_latency =
     PDict [(''usr_cpu'', PFloat 2.5), (''sys_cpu'', PFloat 1.5),
            (''write'', PDict [(''bw'', PInt 1024), (''iops'', PInt 256)])]"

definition doc_no_latency :: pyval where
  "doc_no_latency = PDict [(''jobs'', PList [job_no_latency])]"

definition metrics_no_latency :: metrics where
  "metrics_no_latency =
     [(''cpu_usr'', PFloat 2.5), (''cpu_sys'', PFloat 1.5), (''cpu_total'', PFloat 4),
      (''bandwidth'', PFloat 1), (''avg_latency'', PInt 0),
      (''stdev_latency'', PInt 0), (''iops'', PInt 256)]"

definition units_na :: units where
  "units_na =
     [(''cpu_usr'', ''%''), (''cpu_sys'', ''%''), (''cpu_total'', ''%''),
      (''bandwidth'', ''MiB/s''), (''avg_latency'', ''N/A''),
      (''stdev_latency'', ''N/A''), (''iops'', ''ops/s'')]"

definition load_example :: loader where
  "load_example p =
     (if p = ''fio-csv1.json'' then Inr doc_ns_us
      else if p = ''fio-csv3.json'' then Inr doc_no_latency
      else if p = ''broken.json'' then Inl JSONDecodeError
      else if p = ''nojobs.json'' then Inr (PDict [(''jobs'', PList [])])
      else if p = ''intjob.json'' then Inr (PDict [(''jobs'', PList [PInt 1])])
      else Inl FileNotFoundError)"

text \<open>The end-to-end scenario: three runs are attempted and the document of run 2 is
  missing.  The state that \<^verbatim>\<open>main\<close> reaches after the loop, and the rows it hands to
  the CSV writer.  The sample standard deviation of two different values is irrational;
  it is kept as \<^const>\<open>sample_stdev\<close> of the two values.\<close>

definition scenario_files :: "string list" where
  "scenario_files = [''fio-csv1.json'', ''fio-csv2.json'', ''fio-csv3.json'']"

definition scenario_rows :: "run_row list" where
  "scenario_rows =
     [[(''Run'', CInt 1), (''cpu_usr (%)'', CStr ''1.50''), (''cpu_sys (%)'', CStr ''0.50''),
       (''cpu_total (%)'', CStr ''2.00''), (''bandwidth (MiB/s)'', CStr ''2.00''),
       (''avg_latency (ms)'', CStr ''5.00''), (''stdev_latency (ms)'', CStr ''0.25''),
       (''iops (ops/s)'', CStr ''512.00'')],
      [(''Run'', CInt 3), (''cpu_usr (%)'', CStr ''2.50''), (''cpu_sys (%)'', CStr ''1.50''),
       (''cpu_total (%)'', CStr ''4.00''), (''bandwidth (MiB/s)'', CStr ''1.00''),
       (''avg_latency (N/A)'', CStr ''0.00''), (''stdev_latency (N/A)'', CStr ''0.00''),
       (''iops (ops/s)'', CStr ''256.00'')]]"

definition scenario_state :: run_state where
  "scenario_state =
     \<lparr>all_metrics =
        [(''cpu_usr'', [PFloat 1.5, PFloat 2.5]), (''cpu_sys'', [PFloat 0.5, PFloat 1.5]),
         (''cpu_total'', [PFloat 2, PFloat 4]), (''bandwidth'', [PFloat 2, PFloat 1]),
         (''avg_latency'', [PFloat 5, PInt 0]), (''stdev_latency'', [PFloat 0.25, PInt 0]),
         (''iops'', [PInt 512, PInt 256])],
      global_units_map = units_na,
      avg_latency_values = [PFloat 5],
      stdev_latency_values = [PFloat 0.25],
      individual_run_data = scenario_rows\<rparr>"

definition scenario_aggregated :: "string list list" where
  "scenario_aggregated =
     [[''Metric'', ''Average'', ''Std Dev'', ''Unit'', ''Min'', ''Max''],
      [''Cpu Usr'', ''2.00'', fmt2_real (sample_stdev [1.5, 2.5]), ''%'', ''1.50'', ''2.50''],
      [''Cpu Sys'', ''1.00'', fmt2_real (sample_stdev [0.5, 1.5]), ''%'', ''0.50'', ''1.50''],
      [''Cpu Total'', ''3.00'', fmt2_real (sample_stdev [2, 4]), ''%'', ''2.00'', ''4.00''],
      [''Bandwidth'', ''1.50'', fmt2_real (sample_stdev [2, 1]), ''MiB/s'', ''1.00'', ''2.00''],
      [''Avg Latency'', ''2.50'', fmt2_real (sample_stdev [5, 0]), ''N/A'', ''0.00'', ''5.00''],
      [''Stdev Latency'', ''0.12'', fmt2_real (sample_stdev [0.25, 0]), ''N/A'', ''0.00'', ''0.25''],
      [''Iops'', ''384.00'', fmt2_real (sample_stdev [512, 256]), ''ops/s'', ''256.00'', ''512.00''],
      [''Average Latency'', [], [], ''N/A'', ''5.00'', ''5.00''],
      [''Standard Deviation Latency'', [], [], ''N/A'', ''0.25'', ''0.25'']]"

definition scenario_report :: "string list list" where
  "scenario_report =
     [[''Individual Run Metrics''],
      [''Run'', ''cpu_usr (%)'', ''cpu_sys (%)'', ''cpu_total (%)'', ''bandwidth (MiB/s)'',
       ''avg_latency (ms)'', ''stdev_latency (ms)'', ''iops (ops/s)'',
       ''avg_latency (N/A)'', ''stdev_latency (N/A)''],
      [''1'', ''1.50'', ''0.50'', ''2.00'', ''2.00'', ''5.00'', ''0.25'', ''512.00'', [], []],
      [''3'', ''2.50'', ''1.50'', ''4.00'', ''1.00'', [], [], ''256.00'', ''0.00'', ''0.00''],
      [],
      [''Aggregated Metrics'']]
     @ scenario_aggregated"

section \<open>Facts about the Extractor\<close>

subsection \<open>Reading a successful run backwards\<close>

lemma ebind_Inr_iff: "ebind m f = Inr y \<longleftrightarrow> (\<exists>x. m = Inr x \<and> f x = Inr y)"
  by (cases m) (simp_all add: ebind_def)

lemma ebind_Inr [simp]: "ebind (Inr x) f = f x" by (simp add: ebind_def)
lemma ebind_Inl [simp]: "ebind (Inl e) f = Inl e" by (simp add: ebind_def)

lemma dict_get_Inr: "dict_get x key dflt = Inr v \<Longrightarrow> \<exists>d. x = PDict d \<and> v = get_or d key dflt"
  by (cases x) (simp_all add: dict_get_def get_or_def)







lemma py_truediv_Inr:
  "py_truediv x c = Inr v \<Longrightarrow> \<exists>a. num_of x = Some a \<and> c \<noteq> 0 \<and> v = PFloat (a / c)"
  by (auto simp: py_truediv_def split: option.splits if_splits)

lemma latency_metrics_Inr:
  assumes "latency_metrics latency_data cf = Inr (avg, sd, u)"
  shows "(truthy latency_data \<and> u = ''ms'' \<and>
          (\<exists>lat m s. latency_data = PDict lat \<and> num_of (get_or lat ''mean'' (PInt 0)) = Some m
               \<and> num_of (get_or lat ''stddev'' (PInt 0)) = Some s
               \<and> avg = PFloat (m / cf) \<and> sd = PFloat (s / cf)))
         \<or> (\<not> truthy latency_data \<and> u = ''N/A'' \<and> avg = PInt 0 \<and> sd = PInt 0)"
  using assms
  by (auto simp: latency_metrics_def ebind_Inr_iff split: if_splits
           dest!: dict_get_Inr py_truediv_Inr)

lemma job_metrics_Inr:
  assumes "job_metrics job_data = Inr (ms, us)"
  shows "\<exists>cpu_usr cpu_sys cpu_total read_bw write_bw bw_sum bandwidth latency_data cf
            avg sd u read_iops write_iops iops.
           dict_get job_data ''usr_cpu'' (PInt 0) = Inr cpu_usr
         \<and> dict_get job_data ''sys_cpu'' (PInt 0) = Inr cpu_sys
         \<and> py_add cpu_usr cpu_sys = Inr cpu_total
         \<and> side_get job_data ''read'' ''bw'' (PInt 0) = Inr read_bw
         \<and> side_get job_data ''write'' ''bw'' (PInt 0) = Inr write_bw
         \<and> py_add read_bw write_bw = Inr bw_sum
         \<and> py_truediv bw_sum 1024 = Inr bandwidth
         \<and> select_latency job_data = Inr (latency_data, cf)
         \<and> latency_metrics latency_data cf = Inr (avg, sd, u)
         \<and> side_get job_data ''read'' ''iops'' (PInt 0) = Inr read_iops
         \<and> side_get job_data ''write'' ''iops'' (PInt 0) = Inr write_iops
         \<and> py_add read_iops write_iops = Inr iops
         \<and> ms = [(''cpu_usr'', cpu_usr), (''cpu_sys'', cpu_sys), (''cpu_total'', cpu_total),
                  (''bandwidth'', bandwidth), (''avg_latency'', avg),
                  (''stdev_latency'', sd), (''iops'', iops)]
         \<and> us = [(''cpu_usr'', ''%''), (''cpu_sys'', ''%''), (''cpu_total'', ''%''),
                  (''bandwidth'', ''MiB/s''), (''avg_latency'', u),
                  (''stdev_latency'', u), (''iops'', ''ops/s'')]"
  using assms
  by (auto simp: job_metrics_def ebind_Inr_iff split: prod.splits)

lemma extract_metrics_nonempty:
  assumes "extract_metrics data = Inr (ms, us)" "ms \<noteq> []"
  shows "\<exists>job_data. first_job data = Some job_data \<and> job_metrics job_data = Inr (ms, us)"
proof -
  from assms obtain jobs n job_data where
    j: "py_getitem data ''jobs'' = Inr jobs" "py_len jobs = Inr n" "n > 0"
       "py_getitem0 jobs = Inr job_data" "job_metrics job_data = Inr (ms, us)"
    by (auto simp: extract_metrics_def ebind_Inr_iff split: if_splits)
  from j(5) obtain jd where "job_data = PDict jd"
    by (auto simp: job_metrics_def ebind_Inr_iff dest!: dict_get_Inr)
  with j(1,4) have "first_job data = Some job_data"
    by (auto simp: py_getitem_def py_getitem0_def first_job_def
             split: pyval.splits option.splits list.splits)
  with j(5) show ?thesis by blast
qed

lemma parse_nonempty:
  assumes "parse_fio_output load fp = (evs, Inr (ms, us))" "ms \<noteq> []"
  shows "\<exists>data job_data. load fp = Inr data \<and> first_job data = Some job_data
           \<and> job_metrics job_data = Inr (ms, us)"
proof -
  from assms obtain data where d: "load fp = Inr data" "extract_metrics data = Inr (ms, us)"
    by (auto simp: parse_fio_output_def split: sum.splits py_error.splits)
  from extract_metrics_nonempty[OF d(2) assms(2)] d(1) show ?thesis by blast
qed

lemmas py_defs =
  extract_metrics_def py_contains_def py_getitem_def py_len_def py_getitem0_def
  job_metrics_def dict_get_def py_add_def side_get_def py_truediv_def select_latency_def
  probe_def sub2_def latency_metrics_def

lemma parse_example_1:
  "parse_fio_output load_example ''fio-csv1.json'' = ([OpenRead ''fio-csv1.json''], Inr (metrics_ns_us, units_ms))"
  by (simp add: parse_fio_output_def load_example_def doc_ns_us_def job_ns_us_def metrics_ns_us_def
        units_ms_def py_defs)

subsection \<open>Error handling of the Extractor\<close>

text \<open>
  Claim C1, as stated: for any document content whatsoever, \<^verbatim>\<open>parse_fio_output\<close> lets no
  file, parse or structural error escape and returns an empty result.  The code catches
  \<^verbatim>\<open>FileNotFoundError\<close> and \<^verbatim>\<open>json.JSONDecodeError\<close> only.  The document
  \<^verbatim>\<open>{"jobs": [1]}\<close> is valid JSON; line 28 accepts it, line 30 takes the int 1 as the job
  entry, and line 33 calls \<^verbatim>\<open>.get\<close> on it: \<^verbatim>\<open>AttributeError\<close> leaves the function.
\<close>

theorem parse_raises_counterexample:
  "parse_fio_output load_example ''intjob.json'' = ([OpenRead ''intjob.json''], Inl AttributeError)"
  by (simp add: parse_fio_output_def load_example_def py_defs)

text \<open>
  Claim C1, amended: when the file is missing, or its content is not valid JSON,
  \<^verbatim>\<open>parse_fio_output\<close> prints the matching diagnostic and returns the empty result; when
  the document is a JSON object with no \<^verbatim>\<open>jobs\<close> key, or with an empty \<^verbatim>\<open>jobs\<close>
  collection, it returns the empty result and prints nothing.
\<close>

theorem parse_recovers:
  "(load fp = Inl FileNotFoundError \<longrightarrow>
      parse_fio_output load fp
        = ([OpenRead fp, Print (''Error: File not found at '' @ fp)], Inr ([], [])))
   \<and> (load fp = Inl JSONDecodeError \<longrightarrow>
      parse_fio_output load fp
        = ([OpenRead fp, Print (''Error: Invalid JSON in '' @ fp)], Inr ([], [])))
   \<and> (\<forall>d. load fp = Inr (PDict d)
          \<and> (map_of d ''jobs'' = None \<or> (\<exists>jobs. map_of d ''jobs'' = Some jobs \<and> py_len jobs = Inr 0))
        \<longrightarrow> parse_fio_output load fp = ([OpenRead fp], Inr ([], [])))"
  by (auto simp: parse_fio_output_def extract_metrics_def py_contains_def py_getitem_def)

theorem parse_recovers_witness:
  "parse_fio_output load_example ''fio-csv2.json''
     = ([OpenRead ''fio-csv2.json'', Print ''Error: File not found at fio-csv2.json''], Inr ([], []))
   \<and> parse_fio_output load_example ''broken.json''
     = ([OpenRead ''broken.json'', Print ''Error: Invalid JSON in broken.json''], Inr ([], []))
   \<and> parse_fio_output load_example ''nojobs.json'' = ([OpenRead ''nojobs.json''], Inr ([], []))"
proof -
  have a: "load_example ''fio-csv2.json'' = Inl FileNotFoundError" by (simp add: load_example_def)
  have b: "load_example ''broken.json'' = Inl JSONDecodeError" by (simp add: load_example_def)
  have c: "load_example ''nojobs.json'' = Inr (PDict [(''jobs'', PList [])])
           \<and> (map_of [(''jobs'', PList [])] ''jobs'' = None
              \<or> (\<exists>jobs. map_of [(''jobs'', PList [])] ''jobs'' = Some jobs \<and> py_len jobs = Inr 0))"
    by (simp add: load_example_def py_len_def)
  from parse_recovers[of load_example "''fio-csv2.json''"] a
       parse_recovers[of load_example "''broken.json''"] b
       parse_recovers[of load_example "''nojobs.json''"] c
  show ?thesis by simp
qed

subsection \<open>Latency priority\<close>



subsection \<open>Bandwidth\<close>



subsection \<open>Shape of a non-empty result\<close>

text \<open>
  Claim C10: a non-empty result of the Extractor has exactly the seven metric names
  \<^verbatim>\<open>cpu_usr\<close>, \<^verbatim>\<open>cpu_sys\<close>, \<^verbatim>\<open>cpu_total\<close>, \<^verbatim>\<open>bandwidth\<close>, \<^verbatim>\<open>avg_latency\<close>,
  \<^verbatim>\<open>stdev_latency\<close>, \<^verbatim>\<open>iops\<close>, each with a unit, and the two latency metrics carry
  the same unit, \<^verbatim>\<open>ms\<close> or \<^verbatim>\<open>N/A\<close>.
\<close>

theorem extractor_result_shape:
  assumes "parse_fio_output load fp = (evs, Inr (ms, us))" and "ms \<noteq> []"
  shows "map fst ms = [''cpu_usr'', ''cpu_sys'', ''cpu_total'', ''bandwidth'', ''avg_latency'',
                       ''stdev_latency'', ''iops'']
       \<and> map fst us = map fst ms
       \<and> (\<exists>u. map_of us ''avg_latency'' = Some u \<and> map_of us ''stdev_latency'' = Some u
              \<and> (u = ''ms'' \<or> u = ''N/A''))"
proof -
  from parse_nonempty[OF assms] obtain job_data where jm: "job_metrics job_data = Inr (ms, us)"
    by blast
  from job_metrics_Inr[OF jm] obtain cpu_usr cpu_sys cpu_total bandwidth latency_data cf avg sd u iops where
      lm: "latency_metrics latency_data cf = Inr (avg, sd, u)"
  and ms: "ms = [(''cpu_usr'', cpu_usr), (''cpu_sys'', cpu_sys), (''cpu_total'', cpu_total),
                  (''bandwidth'', bandwidth), (''avg_latency'', avg),
                  (''stdev_latency'', sd), (''iops'', iops)]"
  and us: "us = [(''cpu_usr'', ''%''), (''cpu_sys'', ''%''), (''cpu_total'', ''%''),
                  (''bandwidth'', ''MiB/s''), (''avg_latency'', u),
                  (''stdev_latency'', u), (''iops'', ''ops/s'')]"
    by blast
  from latency_metrics_Inr[OF lm] have "u = ''ms'' \<or> u = ''N/A''" by auto
  with ms us show ?thesis by auto
qed

theorem extractor_result_shape_witness:
  "map fst metrics_ns_us = [''cpu_usr'', ''cpu_sys'', ''cpu_total'', ''bandwidth'', ''avg_latency'',
                       ''stdev_latency'', ''iops'']
   \<and> map fst units_ms = map fst metrics_ns_us
   \<and> map_of units_ms ''avg_latency'' = Some ''ms''
   \<and> map_of units_ms ''stdev_latency'' = Some ''ms''"
proof -
  have n: "metrics_ns_us \<noteq> []" by (simp add: metrics_ns_us_def)
  from extractor_result_shape[OF parse_example_1 n]
  have "map fst metrics_ns_us = [''cpu_usr'', ''cpu_sys'', ''cpu_total'', ''bandwidth'',
          ''avg_latency'', ''stdev_latency'', ''iops'']"
       "map fst units_ms = map fst metrics_ns_us"
    by blast+
  moreover have "map_of units_ms ''avg_latency'' = Some ''ms''"
                "map_of units_ms ''stdev_latency'' = Some ''ms''"
    by (simp_all add: units_ms_def)
  ultimately show ?thesis by blast
qed

section \<open>Facts about the Aggregator\<close>

subsection \<open>File names and events\<close>

lemma generate_valid:
  "0 < k \<Longrightarrow> p \<noteq> [] \<Longrightarrow> generate_fio_filenames (PInt k) (PStr p) = Inr (run_files k p)"
  by (simp add: generate_fio_filenames_def run_files_def)

lemma parse_events_no_write: "\<forall>e \<in> set (fst (parse_fio_output load fp)). \<not> is_write_event e"
  by (auto simp: parse_fio_output_def split: sum.splits py_error.splits)


lemma metrics_loop_events:
  "\<forall>e \<in> set (fst (metrics_loop us ms acc)). \<not> is_write_event e \<and> \<not> is_read_event e"
proof (induction ms arbitrary: acc)
  case Nil
  then show ?case by simp
next
  case (Cons kv rest)
  obtain key v where kv: "kv = (key, v)" by (cases kv)
  obtain am rd where acc: "acc = (am, rd)" by (cases acc)
  show ?case
  proof (cases "fmt2 v")
    case (Inl e)
    then show ?thesis by (simp add: kv acc)
  next
    case (Inr s)
    with Cons.IH[of "(series_append am key v,
                   AList.update (key @ '' ('' @ get_or us key [] @ '')'') (CStr s) rd)"]
    show ?thesis by (auto simp: kv acc Let_def split: prod.splits)
  qed
qed

lemma process_file_events:
  "\<forall>e \<in> set (fst (process_file load i fp st)). \<not> is_write_event e"
proof -
  obtain evs0 r where pr: "parse_fio_output load fp = (evs0, r)" by (cases "parse_fio_output load fp")
  from parse_events_no_write[of load fp] pr have e0: "\<forall>e \<in> set evs0. \<not> is_write_event e" by simp
  show ?thesis
  proof (cases r)
    case (Inl e)
    with pr e0 show ?thesis by (simp add: process_file_def)
  next
    case (Inr mu)
    obtain ms us where mu: "mu = (ms, us)" by (cases mu)
    show ?thesis
    proof (cases "ms = []")
      case True
      with pr Inr mu e0 show ?thesis by (simp add: process_file_def)
    next
      case False
      obtain evs1 r1 where ml: "metrics_loop us ms (all_metrics st, [(''Run'', CInt (int i + 1))]) = (evs1, r1)"
        by (cases "metrics_loop us ms (all_metrics st, [(''Run'', CInt (int i + 1))])")
      from metrics_loop_events[of us ms "(all_metrics st, [(''Run'', CInt (int i + 1))])"] ml
      have e1: "\<forall>e \<in> set evs1. \<not> is_write_event e" by simp
      from pr Inr mu False ml e0 e1 show ?thesis
        by (cases r1) (auto simp: process_file_def)
    qed
  qed
qed

lemma files_loop_events:
  "\<forall>e \<in> set (fst (files_loop load i files st)). \<not> is_write_event e"
proof (induction files arbitrary: i st)
  case Nil
  then show ?case by simp
next
  case (Cons fp rest)
  obtain evs1 r1 where p: "process_file load i fp st = (evs1, r1)" by (cases "process_file load i fp st")
  from process_file_events[of load i fp st] p have e1: "\<forall>e \<in> set evs1. \<not> is_write_event e" by simp
  show ?case
  proof (cases r1)
    case (Inl e)
    with p e1 show ?thesis by simp
  next
    case (Inr st1)
    obtain evs2 r2 where l: "files_loop load (Suc i) rest st1 = (evs2, r2)"
      by (cases "files_loop load (Suc i) rest st1")
    from Cons.IH[of "Suc i" st1] l have "\<forall>e \<in> set evs2. \<not> is_write_event e" by simp
    with p Inr l e1 show ?thesis by auto
  qed
qed

subsection \<open>Numbers of a series\<close>

lemma nums_of_Inr:
  "nums_of vals = Inr xs \<Longrightarrow> map num_of vals = map Some xs"
  by (induction vals arbitrary: xs) (auto simp: ebind_Inr_iff split: option.splits)

lemma nums_of_length: "nums_of vals = Inr xs \<Longrightarrow> length xs = length vals"
  by (drule nums_of_Inr) (metis length_map)

lemma nums_of_numeric:
  "(\<forall>v \<in> set vals. num_of v \<noteq> None) \<Longrightarrow> \<exists>xs. nums_of vals = Inr xs"
  by (induction vals) auto

lemma py_min_Min: "xs \<noteq> [] \<Longrightarrow> py_min xs = Inr (Min (set xs))"
proof (cases xs)
  case (Cons x r)
  then show ?thesis unfolding Cons py_min_def Min.set_eq_fold by simp
qed simp

lemma py_max_Max: "xs \<noteq> [] \<Longrightarrow> py_max xs = Inr (Max (set xs))"
proof (cases xs)
  case (Cons x r)
  then show ?thesis unfolding Cons py_max_def Max.set_eq_fold by simp
qed simp


subsection \<open>The state after the loop over the files\<close>

lemma get_or_series_append:
  "get_or (series_append am key v) k [] = (if k = key then get_or am key [] @ [v] else get_or am k [])"
  by (auto simp: series_append_def get_or_def update_conv' map_add_def split: option.splits)

lemma snd_set_update: "snd ` set (AList.update k v al) \<subseteq> insert v (snd ` set al)"
  by (induction al) auto

lemma series_append_nonempty:
  assumes "\<forall>vs \<in> snd ` set am. vs \<noteq> []"
  shows "\<forall>vs \<in> snd ` set (series_append am key v). vs \<noteq> []"
proof (cases "map_of am key")
  case None
  with assms show ?thesis by (auto simp: series_append_def)
next
  case (Some a)
  have "snd ` set (series_append am key v) \<subseteq> insert (a @ [v]) (snd ` set am)"
    using snd_set_update[of key "a @ [v]" am] Some by (simp add: series_append_def)
  with assms show ?thesis by blast
qed

lemma update_keeps_other: "k \<noteq> k' \<Longrightarrow> map_of (AList.update k v al) k' = map_of al k'"
  by (simp add: update_conv')

lemma column_not_Run: "key @ '' ('' @ unit @ '')'' \<noteq> ''Run''"
proof
  assume "key @ '' ('' @ unit @ '')'' = ''Run''"
  then have "last (key @ '' ('' @ unit @ '')'') = last ''Run''" by simp
  then show False by simp
qed

lemma fmt2_Inr: "fmt2 v = Inr s \<Longrightarrow> num_of v \<noteq> None"
  by (auto simp: fmt2_def split: option.splits pyval.splits)

lemma metrics_loop_Inr:
  assumes "metrics_loop us ms (am, rd) = (evs, Inr (am', rd'))"
  shows "(\<forall>key. get_or am' key [] = get_or am key [] @ values_for key ms)
       \<and> map_of rd' ''Run'' = map_of rd ''Run''
       \<and> ((\<forall>vs \<in> snd ` set am. vs \<noteq> []) \<longrightarrow> (\<forall>vs \<in> snd ` set am'. vs \<noteq> []))
       \<and> (\<forall>v \<in> snd ` set ms. num_of v \<noteq> None)"
  using assms
proof (induction ms arbitrary: am rd evs)
  case Nil
  then show ?case by (simp add: values_for_def)
next
  case (Cons kv rest)
  obtain key v where kv: "kv = (key, v)" by (cases kv)
  from Cons.prems kv obtain s evs0 where
    s: "fmt2 v = Inr s"
    and r: "metrics_loop us rest (series_append am key v,
              AList.update (key @ '' ('' @ get_or us key [] @ '')'') (CStr s) rd) = (evs0, Inr (am', rd'))"
    by (auto simp: Let_def split: sum.splits prod.splits)
  note ih = Cons.IH[OF r]
  have a: "\<forall>k. get_or am' k [] = get_or am k [] @ values_for k (kv # rest)"
    using ih by (auto simp: get_or_series_append values_for_def kv)
  have b: "map_of rd' ''Run'' = map_of rd ''Run''"
    using ih column_not_Run[of key "get_or us key []"] by (simp add: update_keeps_other)
  have c: "(\<forall>vs \<in> snd ` set am. vs \<noteq> []) \<longrightarrow> (\<forall>vs \<in> snd ` set am'. vs \<noteq> [])"
    using ih series_append_nonempty[of am key v] by blast
  have d: "\<forall>v \<in> snd ` set (kv # rest). num_of v \<noteq> None"
    using ih fmt2_Inr[OF s] by (auto simp: kv)
  from a b c d show ?case by blast
qed

lemma collect_latency_eq: "collect_latency ms us key vals = vals @ valid_latency key ms us"
  by (auto simp: collect_latency_def valid_latency_def split: option.splits)

lemma process_file_Inr:
  assumes "process_file load i fp st = (evs, Inr st')"
  shows "\<exists>evs0 ms us. parse_fio_output load fp = (evs0, Inr (ms, us))
           \<and> (if ms = [] then st' = st
               else (\<exists>evs1 am rd.
                      metrics_loop us ms (all_metrics st, [(''Run'', CInt (int i + 1))])
                        = (evs1, Inr (am, rd))
                    \<and> st' = \<lparr>all_metrics = am,
                             global_units_map = units_update (global_units_map st) us,
                             avg_latency_values =
                               collect_latency ms us ''avg_latency'' (avg_latency_values st),
                             stdev_latency_values =
                               collect_latency ms us ''stdev_latency'' (stdev_latency_values st),
                             individual_run_data = individual_run_data st @ [rd]\<rparr>))"
proof -
  obtain evs0 r where pr: "parse_fio_output load fp = (evs0, r)" by (cases "parse_fio_output load fp")
  with assms obtain ms us where r: "r = Inr (ms, us)"
    by (cases r) (auto simp: process_file_def)
  show ?thesis
  proof (cases "ms = []")
    case True
    with assms pr r show ?thesis by (simp add: process_file_def)
  next
    case False
    obtain evs1 r1 where ml: "metrics_loop us ms (all_metrics st, [(''Run'', CInt (int i + 1))]) = (evs1, r1)"
      by (cases "metrics_loop us ms (all_metrics st, [(''Run'', CInt (int i + 1))])")
    with assms pr r False obtain am rd where r1: "r1 = Inr (am, rd)"
      by (cases r1) (auto simp: process_file_def)
    from assms pr r False ml r1 show ?thesis
      by (simp add: process_file_def)
  qed
qed

lemma successful_runs_Cons:
  "successful_runs load i (fp # rest) = successful_runs load i [fp] @ successful_runs load (Suc i) rest"
  by simp

lemma process_file_step:
  assumes "process_file load i fp st = (evs, Inr st')"
  shows "map (\<lambda>row. map_of row ''Run'') (individual_run_data st')
           = map (\<lambda>row. map_of row ''Run'') (individual_run_data st)
             @ map (\<lambda>r. Some (CInt (int (run_no r)))) (successful_runs load i [fp])"
    and "get_or (all_metrics st') key []
             = get_or (all_metrics st) key []
               @ concat (map (\<lambda>r. values_for key (run_metrics r)) (successful_runs load i [fp]))"
    and "avg_latency_values st'
           = avg_latency_values st
             @ concat (map (\<lambda>r. valid_latency ''avg_latency'' (run_metrics r) (run_units r))
                         (successful_runs load i [fp]))"
    and "stdev_latency_values st'
           = stdev_latency_values st
             @ concat (map (\<lambda>r. valid_latency ''stdev_latency'' (run_metrics r) (run_units r))
                         (successful_runs load i [fp]))"
    and "(\<forall>vs \<in> snd ` set (all_metrics st). vs \<noteq> [])
            \<Longrightarrow> (\<forall>vs \<in> snd ` set (all_metrics st'). vs \<noteq> [])"
    and "\<forall>r \<in> set (successful_runs load i [fp]). \<forall>v \<in> snd ` set (run_metrics r). num_of v \<noteq> None"
proof -
  from process_file_Inr[OF assms] obtain evs0 ms us where
    q: "parse_fio_output load fp = (evs0, Inr (ms, us))"
    and c: "if ms = [] then st' = st
            else (\<exists>evs1 am rd.
                      metrics_loop us ms (all_metrics st, [(''Run'', CInt (int i + 1))])
                        = (evs1, Inr (am, rd))
                    \<and> st' = \<lparr>all_metrics = am,
                             global_units_map = units_update (global_units_map st) us,
                             avg_latency_values =
                               collect_latency ms us ''avg_latency'' (avg_latency_values st),
                             stdev_latency_values =
                               collect_latency ms us ''stdev_latency'' (stdev_latency_values st),
                             individual_run_data = individual_run_data st @ [rd]\<rparr>)"
    by (elim exE conjE) (rule that)
  have goal: "(map (\<lambda>row. map_of row ''Run'') (individual_run_data st')
           = map (\<lambda>row. map_of row ''Run'') (individual_run_data st)
             @ map (\<lambda>r. Some (CInt (int (run_no r)))) (successful_runs load i [fp]))
    \<and> (get_or (all_metrics st') key []
             = get_or (all_metrics st) key []
               @ concat (map (\<lambda>r. values_for key (run_metrics r)) (successful_runs load i [fp])))
    \<and> (avg_latency_values st'
           = avg_latency_values st
             @ concat (map (\<lambda>r. valid_latency ''avg_latency'' (run_metrics r) (run_units r))
                         (successful_runs load i [fp])))
    \<and> (stdev_latency_values st'
           = stdev_latency_values st
             @ concat (map (\<lambda>r. valid_latency ''stdev_latency'' (run_metrics r) (run_units r))
                         (successful_runs load i [fp])))
    \<and> ((\<forall>vs \<in> snd ` set (all_metrics st). vs \<noteq> [])
            \<longrightarrow> (\<forall>vs \<in> snd ` set (all_metrics st'). vs \<noteq> []))
    \<and> (\<forall>r \<in> set (successful_runs load i [fp]). \<forall>v \<in> snd ` set (run_metrics r). num_of v \<noteq> None)"
  proof (cases "ms = []")
    case True
    with c have "st' = st" by simp
    moreover from q True have "successful_runs load i [fp] = []" by simp
    ultimately show ?thesis by simp
  next
    case False
    with c obtain evs3 am rd where
      m: "metrics_loop us ms (all_metrics st, [(''Run'', CInt (int i + 1))]) = (evs3, Inr (am, rd))"
      and s: "st' = \<lparr>all_metrics = am,
                             global_units_map = units_update (global_units_map st) us,
                             avg_latency_values =
                               collect_latency ms us ''avg_latency'' (avg_latency_values st),
                             stdev_latency_values =
                               collect_latency ms us ''stdev_latency'' (stdev_latency_values st),
                             individual_run_data = individual_run_data st @ [rd]\<rparr>"
      by (simp only: if_False) (elim exE conjE, rule that)
    note ml = metrics_loop_Inr[OF m]
    have sr: "successful_runs load i [fp] = [\<lparr>run_no = Suc i, run_metrics = ms, run_units = us\<rparr>]"
      using q False by simp
    have i1: "int i + 1 = int (Suc i)" by simp
    from ml have rd: "map_of rd ''Run'' = Some (CInt (int (Suc i)))"
      unfolding i1 by simp
    have st1: "all_metrics st' = am" "individual_run_data st' = individual_run_data st @ [rd]"
      "avg_latency_values st' = avg_latency_values st @ valid_latency ''avg_latency'' ms us"
      "stdev_latency_values st' = stdev_latency_values st @ valid_latency ''stdev_latency'' ms us"
      by (simp_all add: s collect_latency_eq)
    from ml have ne: "(\<forall>vs \<in> snd ` set (all_metrics st). vs \<noteq> []) \<longrightarrow> (\<forall>vs \<in> snd ` set am. vs \<noteq> [])"
      and nu: "\<forall>v \<in> snd ` set ms. num_of v \<noteq> None"
      and ga: "get_or am key [] = get_or (all_metrics st) key [] @ values_for key ms"
      by blast+
    show ?thesis
      unfolding sr st1 using rd ne nu ga by simp
  qed
  from goal show "map (\<lambda>row. map_of row ''Run'') (individual_run_data st')
           = map (\<lambda>row. map_of row ''Run'') (individual_run_data st)
             @ map (\<lambda>r. Some (CInt (int (run_no r)))) (successful_runs load i [fp])"
    and "get_or (all_metrics st') key []
             = get_or (all_metrics st) key []
               @ concat (map (\<lambda>r. values_for key (run_metrics r)) (successful_runs load i [fp]))"
    and "avg_latency_values st'
           = avg_latency_values st
             @ concat (map (\<lambda>r. valid_latency ''avg_latency'' (run_metrics r) (run_units r))
                         (successful_runs load i [fp]))"
    and "stdev_latency_values st'
           = stdev_latency_values st
             @ concat (map (\<lambda>r. valid_latency ''stdev_latency'' (run_metrics r) (run_units r))
                         (successful_runs load i [fp]))"
    and "(\<forall>vs \<in> snd ` set (all_metrics st). vs \<noteq> [])
            \<Longrightarrow> (\<forall>vs \<in> snd ` set (all_metrics st'). vs \<noteq> [])"
    and "\<forall>r \<in> set (successful_runs load i [fp]). \<forall>v \<in> snd ` set (run_metrics r). num_of v \<noteq> None"
    by blast+
qed

lemma files_loop_Cons_Inr:
  assumes "files_loop load i (fp # rest) st = (evs, Inr st')"
  shows "\<exists>evs1 st1 evs2. process_file load i fp st = (evs1, Inr st1)
            \<and> files_loop load (Suc i) rest st1 = (evs2, Inr st')"
  using assms
  by (auto split: prod.splits sum.splits)

lemma files_loop_state:
  assumes "files_loop load i files st = (evs, Inr st')"
  shows "map (\<lambda>row. map_of row ''Run'') (individual_run_data st')
           = map (\<lambda>row. map_of row ''Run'') (individual_run_data st)
             @ map (\<lambda>r. Some (CInt (int (run_no r)))) (successful_runs load i files)"
    and "get_or (all_metrics st') key []
             = get_or (all_metrics st) key []
               @ concat (map (\<lambda>r. values_for key (run_metrics r)) (successful_runs load i files))"
    and "avg_latency_values st'
           = avg_latency_values st
             @ concat (map (\<lambda>r. valid_latency ''avg_latency'' (run_metrics r) (run_units r))
                         (successful_runs load i files))"
    and "stdev_latency_values st'
           = stdev_latency_values st
             @ concat (map (\<lambda>r. valid_latency ''stdev_latency'' (run_metrics r) (run_units r))
                         (successful_runs load i files))"
    and "(\<forall>vs \<in> snd ` set (all_metrics st). vs \<noteq> [])
            \<Longrightarrow> (\<forall>vs \<in> snd ` set (all_metrics st'). vs \<noteq> [])"
    and "\<forall>r \<in> set (successful_runs load i files). \<forall>v \<in> snd ` set (run_metrics r). num_of v \<noteq> None"
  using assms
proof (induction files arbitrary: i st evs)
  case Nil
  { case 1 then show ?case by simp }
  { case 2 then show ?case by simp }
  { case 3 then show ?case by simp }
  { case 4 then show ?case by simp }
  { case 5 then show ?case by simp }
  { case 6 then show ?case by simp }
next
  case (Cons fp rest)
  { case 1
    from files_loop_Cons_Inr[OF 1] obtain evs1 st1 evs2 where
      p: "process_file load i fp st = (evs1, Inr st1)"
      and l: "files_loop load (Suc i) rest st1 = (evs2, Inr st')" by blast
    show ?case
      unfolding successful_runs_Cons[of load i fp rest]
      using Cons.IH(1)[OF l] process_file_step(1)[OF p]
      by (simp del: successful_runs.simps) }
  { case 2
    from files_loop_Cons_Inr[OF 2] obtain evs1 st1 evs2 where
      p: "process_file load i fp st = (evs1, Inr st1)"
      and l: "files_loop load (Suc i) rest st1 = (evs2, Inr st')" by blast
    show ?case
      unfolding successful_runs_Cons[of load i fp rest]
      using Cons.IH(2)[OF l] process_file_step(2)[OF p]
      by (simp del: successful_runs.simps) }
  { case 3
    from files_loop_Cons_Inr[OF 3] obtain evs1 st1 evs2 where
      p: "process_file load i fp st = (evs1, Inr st1)"
      and l: "files_loop load (Suc i) rest st1 = (evs2, Inr st')" by blast
    show ?case
      unfolding successful_runs_Cons[of load i fp rest]
      using Cons.IH(3)[OF l] process_file_step(3)[OF p]
      by (simp del: successful_runs.simps) }
  { case 4
    from files_loop_Cons_Inr[OF 4] obtain evs1 st1 evs2 where
      p: "process_file load i fp st = (evs1, Inr st1)"
      and l: "files_loop load (Suc i) rest st1 = (evs2, Inr st')" by blast
    show ?case
      unfolding successful_runs_Cons[of load i fp rest]
      using Cons.IH(4)[OF l] process_file_step(4)[OF p]
      by (simp del: successful_runs.simps) }
  { case 5
    from files_loop_Cons_Inr[OF 5(2)] obtain evs1 st1 evs2 where
      p: "process_file load i fp st = (evs1, Inr st1)"
      and l: "files_loop load (Suc i) rest st1 = (evs2, Inr st')" by blast
    show ?case
      using Cons.IH(5)[OF _ l] process_file_step(5)[OF p] 5(1)
      by blast }
  { case 6
    from files_loop_Cons_Inr[OF 6] obtain evs1 st1 evs2 where
      p: "process_file load i fp st = (evs1, Inr st1)"
      and l: "files_loop load (Suc i) rest st1 = (evs2, Inr st')" by blast
    show ?case
      unfolding successful_runs_Cons[of load i fp rest]
      using Cons.IH(6)[OF l] process_file_step(6)[OF p]
      by (auto simp del: successful_runs.simps) }
qed

subsection \<open>Columns of the per-run table\<close>

lemma remdups_drop_earlier: "k \<in> set b \<Longrightarrow> remdups (a @ k # b) = remdups (a @ b)"
  by (induction a) auto

lemma first_seen_distinct: "distinct fs \<Longrightarrow> first_seen fs = fs"
  by (simp add: first_seen_def distinct_remdups_id)

lemma fold_add_fieldname:
  "distinct fs \<Longrightarrow> fold add_fieldname ks fs = first_seen (fs @ ks)"
proof (induction ks arbitrary: fs)
  case Nil
  then show ?case by (simp add: first_seen_distinct)
next
  case (Cons k ks)
  show ?case
  proof (cases "k \<in> set fs")
    case True
    then have "first_seen (fs @ k # ks) = first_seen (fs @ ks)"
      by (simp add: first_seen_def remdups_drop_earlier)
    with True Cons show ?thesis by (simp add: add_fieldname_def)
  next
    case False
    with Cons.prems have "distinct (fs @ [k])" by simp
    from Cons.IH[OF this] False show ?thesis by (simp add: add_fieldname_def)
  qed
qed

lemma distinct_fold_add_fieldname: "distinct fs \<Longrightarrow> distinct (fold add_fieldname ks fs)"
  by (simp add: fold_add_fieldname first_seen_def)

lemma fieldnames_of_fold:
  "fold (\<lambda>row fs. fold add_fieldname (map fst row) fs) rows fs
     = fold add_fieldname (concat (map (map fst) rows)) fs"
  by (induction rows arbitrary: fs) simp_all

lemma fieldnames_of_first_seen:
  "fieldnames_of rows = first_seen (''Run'' # concat (map (map fst) rows))"
  using fold_add_fieldname[of "[''Run'']" "concat (map (map fst) rows)"]
  by (simp add: fieldnames_of_def fieldnames_of_fold)

lemma render_row_nth:
  "length (render_row fs row) = length fs"
  "j < length fs \<Longrightarrow> render_row fs row ! j = (case map_of row (fs ! j) of None \<Rightarrow> [] | Some c \<Rightarrow> render_cell c)"
  by (auto simp: render_row_def get_or_def split: option.splits)

lemma keys_update: "map fst (AList.update k v al) = add_fieldname k (map fst al)"
  by (induction al) (auto simp: add_fieldname_def)

lemma metrics_loop_keys:
  assumes "metrics_loop us ms (am, rd) = (evs, Inr (am', rd'))"
  shows "map fst rd' = fold add_fieldname (map (\<lambda>kv. annotated us (fst kv)) ms) (map fst rd)"
  using assms
proof (induction ms arbitrary: am rd evs)
  case Nil
  then show ?case by simp
next
  case (Cons kv rest)
  obtain key v where kv: "kv = (key, v)" by (cases kv)
  from Cons.prems kv obtain s evs0 where
    s: "fmt2 v = Inr s"
    and r: "metrics_loop us rest (series_append am key v,
              AList.update (key @ '' ('' @ get_or us key [] @ '')'') (CStr s) rd) = (evs0, Inr (am', rd'))"
    by (auto simp: Let_def split: sum.splits prod.splits)
  from Cons.IH[OF r] show ?case
    by (simp add: kv keys_update annotated_def)
qed

lemma distinct_series_append:
  "distinct (map fst am) \<Longrightarrow> distinct (map fst (series_append am key v))"
  by (auto simp: series_append_def distinct_update map_of_eq_None_iff split: option.splits)

lemma metrics_loop_distinct:
  assumes "metrics_loop us ms (am, rd) = (evs, Inr (am', rd'))" "distinct (map fst am)"
  shows "distinct (map fst am')"
  using assms
proof (induction ms arbitrary: am rd evs)
  case Nil
  then show ?case by simp
next
  case (Cons kv rest)
  obtain key v where kv: "kv = (key, v)" by (cases kv)
  from Cons.prems kv obtain s evs0 where
    r: "metrics_loop us rest (series_append am key v,
              AList.update (key @ '' ('' @ get_or us key [] @ '')'') (CStr s) rd) = (evs0, Inr (am', rd'))"
    by (auto simp: Let_def split: sum.splits prod.splits)
  from Cons.IH[OF r distinct_series_append[OF Cons.prems(2)]] show ?case .
qed

lemma process_file_rows_keys:
  assumes "process_file load i fp st = (evs, Inr st')"
  shows "map (map fst) (individual_run_data st')
           = map (map fst) (individual_run_data st)
             @ map (\<lambda>r. fold add_fieldname (map (\<lambda>kv. annotated (run_units r) (fst kv)) (run_metrics r)) [''Run''])
                 (successful_runs load i [fp])"
    and "distinct (map fst (all_metrics st)) \<Longrightarrow> distinct (map fst (all_metrics st'))"
proof -
  from process_file_Inr[OF assms] obtain evs0 ms us where
    q: "parse_fio_output load fp = (evs0, Inr (ms, us))"
    and c: "if ms = [] then st' = st
            else (\<exists>evs1 am rd.
                      metrics_loop us ms (all_metrics st, [(''Run'', CInt (int i + 1))])
                        = (evs1, Inr (am, rd))
                    \<and> st' = \<lparr>all_metrics = am,
                             global_units_map = units_update (global_units_map st) us,
                             avg_latency_values =
                               collect_latency ms us ''avg_latency'' (avg_latency_values st),
                             stdev_latency_values =
                               collect_latency ms us ''stdev_latency'' (stdev_latency_values st),
                             individual_run_data = individual_run_data st @ [rd]\<rparr>)"
    by (elim exE conjE) (rule that)
  have goal: "(map (map fst) (individual_run_data st')
           = map (map fst) (individual_run_data st)
             @ map (\<lambda>r. fold add_fieldname (map (\<lambda>kv. annotated (run_units r) (fst kv)) (run_metrics r)) [''Run''])
                 (successful_runs load i [fp]))
      \<and> (distinct (map fst (all_metrics st)) \<longrightarrow> distinct (map fst (all_metrics st')))"
  proof (cases "ms = []")
    case True
    with c have "st' = st" by simp
    moreover from q True have "successful_runs load i [fp] = []" by simp
    ultimately show ?thesis by simp
  next
    case False
    with c obtain evs3 am rd where
      m: "metrics_loop us ms (all_metrics st, [(''Run'', CInt (int i + 1))]) = (evs3, Inr (am, rd))"
      and s: "st' = \<lparr>all_metrics = am,
                             global_units_map = units_update (global_units_map st) us,
                             avg_latency_values =
                               collect_latency ms us ''avg_latency'' (avg_latency_values st),
                             stdev_latency_values =
                               collect_latency ms us ''stdev_latency'' (stdev_latency_values st),
                             individual_run_data = individual_run_data st @ [rd]\<rparr>"
      by (simp only: if_False) (elim exE conjE, rule that)
    have sr: "successful_runs load i [fp] = [\<lparr>run_no = Suc i, run_metrics = ms, run_units = us\<rparr>]"
      using q False by simp
    have st1: "all_metrics st' = am" "individual_run_data st' = individual_run_data st @ [rd]"
      by (simp_all add: s)
    from metrics_loop_keys[OF m]
    have k: "map fst rd = fold add_fieldname (map (\<lambda>kv. annotated us (fst kv)) ms) [''Run'']"
      by simp
    from metrics_loop_distinct[OF m]
    have d: "distinct (map fst (all_metrics st)) \<longrightarrow> distinct (map fst am)" by blast
    show ?thesis unfolding sr st1 using k d by simp
  qed
  from goal show "map (map fst) (individual_run_data st')
           = map (map fst) (individual_run_data st)
             @ map (\<lambda>r. fold add_fieldname (map (\<lambda>kv. annotated (run_units r) (fst kv)) (run_metrics r)) [''Run''])
                 (successful_runs load i [fp])"
    and "distinct (map fst (all_metrics st)) \<Longrightarrow> distinct (map fst (all_metrics st'))"
    by blast+
qed

lemma files_loop_rows_keys:
  assumes "files_loop load i files st = (evs, Inr st')"
  shows "map (map fst) (individual_run_data st')
           = map (map fst) (individual_run_data st)
             @ map (\<lambda>r. fold add_fieldname (map (\<lambda>kv. annotated (run_units r) (fst kv)) (run_metrics r)) [''Run''])
                 (successful_runs load i files)"
    and "distinct (map fst (all_metrics st)) \<Longrightarrow> distinct (map fst (all_metrics st'))"
  using assms
proof (induction files arbitrary: i st evs)
  case Nil
  { case 1 then show ?case by simp }
  { case 2 then show ?case by simp }
next
  case (Cons fp rest)
  { case 1
    from files_loop_Cons_Inr[OF 1] obtain evs1 st1 evs2 where
      p: "process_file load i fp st = (evs1, Inr st1)"
      and l: "files_loop load (Suc i) rest st1 = (evs2, Inr st')" by blast
    show ?case
      unfolding successful_runs_Cons[of load i fp rest]
      using Cons.IH(1)[OF l] process_file_rows_keys(1)[OF p]
      by (simp del: successful_runs.simps) }
  { case 2
    from files_loop_Cons_Inr[OF 2(2)] obtain evs1 st1 evs2 where
      p: "process_file load i fp st = (evs1, Inr st1)"
      and l: "files_loop load (Suc i) rest st1 = (evs2, Inr st')" by blast
    show ?case
      using Cons.IH(2)[OF _ l] process_file_rows_keys(2)[OF p] 2(1)
      by blast }
qed

lemma successful_runs_shape:
  "r \<in> set (successful_runs load i files) \<Longrightarrow>
     run_metrics r \<noteq> [] \<and> (\<exists>job_data. job_metrics job_data = Inr (run_metrics r, run_units r))"
proof (induction files arbitrary: i)
  case Nil
  then show ?case by simp
next
  case (Cons fp rest)
  show ?case
  proof (cases "r \<in> set (successful_runs load (Suc i) rest)")
    case True
    with Cons.IH show ?thesis by blast
  next
    case False
    with Cons.prems have "\<exists>ms us. snd (parse_fio_output load fp) = Inr (ms, us) \<and> ms \<noteq> []
         \<and> r = \<lparr>run_no = Suc i, run_metrics = ms, run_units = us\<rparr>"
      by (cases "snd (parse_fio_output load fp)") (auto split: if_splits)
    then obtain ms us where
      p: "snd (parse_fio_output load fp) = Inr (ms, us)" "ms \<noteq> []"
         "r = \<lparr>run_no = Suc i, run_metrics = ms, run_units = us\<rparr>"
      by blast
    then have "parse_fio_output load fp = (fst (parse_fio_output load fp), Inr (ms, us))"
      by (metis prod.collapse)
    from parse_nonempty[OF this p(2)] p(2,3) show ?thesis by auto
  qed
qed

lemma job_metrics_columns:
  assumes "job_metrics job_data = Inr (ms, us)"
  shows "fold add_fieldname (map (\<lambda>kv. annotated us (fst kv)) ms) [''Run'']
           = ''Run'' # map (\<lambda>kv. annotated us (fst kv)) ms"
proof -
  from job_metrics_Inr[OF assms] obtain cpu_usr cpu_sys cpu_total bandwidth avg sd u iops where
      ms: "ms = [(''cpu_usr'', cpu_usr), (''cpu_sys'', cpu_sys), (''cpu_total'', cpu_total),
                  (''bandwidth'', bandwidth), (''avg_latency'', avg),
                  (''stdev_latency'', sd), (''iops'', iops)]"
  and us: "us = [(''cpu_usr'', ''%''), (''cpu_sys'', ''%''), (''cpu_total'', ''%''),
                  (''bandwidth'', ''MiB/s''), (''avg_latency'', u),
                  (''stdev_latency'', u), (''iops'', ''ops/s'')]"
    by blast
  have "distinct (''Run'' # map (\<lambda>kv. annotated us (fst kv)) ms)"
    by (simp add: ms us annotated_def get_or_def)
  then show ?thesis
    using fold_add_fieldname[of "[''Run'']" "map (\<lambda>kv. annotated us (fst kv)) ms"]
    by (simp add: first_seen_distinct)
qed

subsection \<open>What \<^verbatim>\<open>main\<close> writes\<close>

lemma main_report:
  assumes "main load write_error iterations output_filepath csv_output = (evs, res)"
      and "WriteRows path report \<in> set evs"
  shows "\<exists>evs0 st agg. 0 < iterations \<and> output_filepath \<noteq> []
           \<and> files_loop load 0 (run_files iterations output_filepath) init_state = (evs0, Inr st)
           \<and> all_metrics st \<noteq> [] \<and> aggregate st = Inr agg
           \<and> write_error csv_output = None \<and> path = csv_output \<and> res = None
           \<and> report = csv_rows (individual_run_data st) agg"
proof -
  have v: "0 < iterations \<and> output_filepath \<noteq> []"
  proof (rule ccontr)
    assume "\<not> (0 < iterations \<and> output_filepath \<noteq> [])"
    then have "fst (main load write_error iterations output_filepath csv_output) = []"
      by (auto simp: main_def generate_fio_filenames_def)
    with assms show False by simp
  qed
  then have g: "generate_fio_filenames (PInt iterations) (PStr output_filepath)
                  = Inr (run_files iterations output_filepath)"
    by (simp add: generate_valid)
  obtain evs0 r0 where l: "files_loop load 0 (run_files iterations output_filepath) init_state = (evs0, r0)"
    by (cases "files_loop load 0 (run_files iterations output_filepath) init_state")
  from files_loop_events[of load 0 "run_files iterations output_filepath" init_state] l
  have e0: "\<forall>e \<in> set evs0. \<not> is_write_event e" by simp
  then have nw: "WriteRows path report \<notin> set evs0" by auto
  show ?thesis
  proof (cases r0)
    case (Inl e)
    with assms g l nw show ?thesis by (auto simp: main_def)
  next
    case (Inr st)
    show ?thesis
    proof (cases "all_metrics st = []")
      case True
      with assms g l Inr nw show ?thesis by (auto simp: main_def)
    next
      case False
      show ?thesis
      proof (cases "aggregate st")
        case (Inl e)
        with assms g l Inr False nw show ?thesis by (auto simp: main_def)
      next
        case ag: (Inr agg)
        show ?thesis
        proof (cases "write_error csv_output")
          case None
          with assms g l Inr False ag nw v show ?thesis by (auto simp: main_def)
        next
          case (Some msg)
          with assms g l Inr False ag nw show ?thesis by (auto simp: main_def)
        qed
      qed
    qed
  qed
qed

subsection \<open>Summary rows and latency rows\<close>

lemma summary_row_numbers:
  assumes "nums_of vals = Inr xs" and "vals \<noteq> []"
  shows "summary_row gum metric_name vals =
           Inr [display_name metric_name,
                fmt2_real (mean xs),
                if 2 \<le> length xs then fmt2_real (sample_stdev xs) else ''N/A'',
                get_or gum metric_name [],
                fmt2_real (Min (set xs)),
                fmt2_real (Max (set xs))]"
proof -
  from assms have ne: "xs \<noteq> []" using nums_of_length by fastforce
  then have l: "real (length xs - 1) = real (length xs) - 1"
    by (cases xs) simp_all
  show ?thesis
    using assms ne
    by (simp add: summary_row_def py_min_Min py_max_Max mean_def sample_stdev_def l Let_def)
qed





lemma summary_rows_map:
  "summary_rows gum am = Inr srows \<Longrightarrow>
     map (\<lambda>nv. summary_row gum (fst nv) (snd nv)) am = map Inr srows"
  by (induction am arbitrary: srows) (auto simp: ebind_Inr_iff)


lemma aggregate_Inr:
  assumes "aggregate st = Inr agg"
  shows "\<exists>srows arows drows.
           summary_rows (global_units_map st) (all_metrics st) = Inr srows
         \<and> latency_row ''Average Latency'' ''avg_latency'' (global_units_map st) (avg_latency_values st) = Inr arows
         \<and> latency_row ''Standard Deviation Latency'' ''stdev_latency'' (global_units_map st)
              (stdev_latency_values st) = Inr drows
         \<and> agg = [''Metric'', ''Average'', ''Std Dev'', ''Unit'', ''Min'', ''Max''] # srows @ arows @ drows"
  using assms by (auto simp: aggregate_def ebind_Inr_iff)


subsection \<open>Series and metric names after the loop\<close>

lemma keys_series_append: "map fst (series_append am key v) = add_fieldname key (map fst am)"
  by (auto simp: series_append_def add_fieldname_def keys_update map_of_eq_None_iff
           split: option.splits)

lemma metrics_loop_series_keys:
  assumes "metrics_loop us ms (am, rd) = (evs, Inr (am', rd'))"
  shows "map fst am' = fold add_fieldname (map fst ms) (map fst am)"
  using assms
proof (induction ms arbitrary: am rd evs)
  case Nil
  then show ?case by simp
next
  case (Cons kv rest)
  obtain key v where kv: "kv = (key, v)" by (cases kv)
  from Cons.prems kv obtain s evs0 where
    r: "metrics_loop us rest (series_append am key v,
              AList.update (key @ '' ('' @ get_or us key [] @ '')'') (CStr s) rd) = (evs0, Inr (am', rd'))"
    by (auto simp: Let_def split: sum.splits prod.splits)
  from Cons.IH[OF r] show ?case
    by (simp add: kv keys_series_append)
qed

lemma fold_add_fieldname_subset:
  "set ks \<subseteq> set fs \<Longrightarrow> fold add_fieldname ks fs = fs"
  by (induction ks) (auto simp: add_fieldname_def)

lemma process_file_series_keys:
  assumes "process_file load i fp st = (evs, Inr st')"
  shows "map fst (all_metrics st')
           = fold add_fieldname (concat (map (\<lambda>r. map fst (run_metrics r)) (successful_runs load i [fp])))
               (map fst (all_metrics st))"
proof -
  from process_file_Inr[OF assms] obtain evs0 ms us where
    q: "parse_fio_output load fp = (evs0, Inr (ms, us))"
    and c: "if ms = [] then st' = st
            else (\<exists>evs1 am rd.
                      metrics_loop us ms (all_metrics st, [(''Run'', CInt (int i + 1))])
                        = (evs1, Inr (am, rd))
                    \<and> st' = \<lparr>all_metrics = am,
                             global_units_map = units_update (global_units_map st) us,
                             avg_latency_values =
                               collect_latency ms us ''avg_latency'' (avg_latency_values st),
                             stdev_latency_values =
                               collect_latency ms us ''stdev_latency'' (stdev_latency_values st),
                             individual_run_data = individual_run_data st @ [rd]\<rparr>)"
    by (elim exE conjE) (rule that)
  show ?thesis
  proof (cases "ms = []")
    case True
    with c have "st' = st" by simp
    moreover from q True have "successful_runs load i [fp] = []" by simp
    ultimately show ?thesis by simp
  next
    case False
    with c obtain evs3 am rd where
      m: "metrics_loop us ms (all_metrics st, [(''Run'', CInt (int i + 1))]) = (evs3, Inr (am, rd))"
      and s: "st' = \<lparr>all_metrics = am,
                             global_units_map = units_update (global_units_map st) us,
                             avg_latency_values =
                               collect_latency ms us ''avg_latency'' (avg_latency_values st),
                             stdev_latency_values =
                               collect_latency ms us ''stdev_latency'' (stdev_latency_values st),
                             individual_run_data = individual_run_data st @ [rd]\<rparr>"
      by (simp only: if_False) (elim exE conjE, rule that)
    have sr: "successful_runs load i [fp] = [\<lparr>run_no = Suc i, run_metrics = ms, run_units = us\<rparr>]"
      using q False by simp
    have st1: "all_metrics st' = am" by (simp add: s)
    show ?thesis unfolding sr st1 using metrics_loop_series_keys[OF m] by simp
  qed
qed

lemma files_loop_series_keys:
  assumes "files_loop load i files st = (evs, Inr st')"
  shows "map fst (all_metrics st')
           = fold add_fieldname (concat (map (\<lambda>r. map fst (run_metrics r)) (successful_runs load i files)))
               (map fst (all_metrics st))"
  using assms
proof (induction files arbitrary: i st evs)
  case Nil
  then show ?case by simp
next
  case (Cons fp rest)
  from files_loop_Cons_Inr[OF Cons.prems] obtain evs1 st1 evs2 where
    p: "process_file load i fp st = (evs1, Inr st1)"
    and l: "files_loop load (Suc i) rest st1 = (evs2, Inr st')" by blast
  show ?case
    unfolding successful_runs_Cons[of load i fp rest]
    using Cons.IH[OF l] process_file_series_keys[OF p]
    by (simp del: successful_runs.simps)
qed

lemma successful_runs_names:
  assumes "r \<in> set (successful_runs load i files)"
  shows "map fst (run_metrics r) = metric_names"
proof -
  from successful_runs_shape[OF assms] obtain job_data where
    "job_metrics job_data = Inr (run_metrics r, run_units r)" by blast
  from job_metrics_Inr[OF this] show ?thesis by (auto simp: metric_names_def)
qed

lemma fold_names_runs:
  assumes "\<forall>r \<in> set runs. f r = names" and "runs \<noteq> []" and "distinct names"
  shows "fold add_fieldname (concat (map f runs)) [] = names"
proof -
  from assms(2) obtain r rs where rs: "runs = r # rs" by (cases runs) auto
  with assms(1) have c: "concat (map f runs) = names @ concat (map f rs)" by simp
  have "fold add_fieldname names [] = names"
    using fold_add_fieldname[of "[]" names] assms(3) by (simp add: first_seen_distinct)
  moreover have "set (concat (map f rs)) \<subseteq> set names"
    using assms(1) rs by auto
  ultimately show ?thesis
    unfolding c by (simp add: fold_add_fieldname_subset)
qed

lemma loop_series:
  assumes "files_loop load 0 files init_state = (evs, Inr st)"
      and "nv \<in> set (all_metrics st)"
  shows "snd nv = concat (map (\<lambda>r. values_for (fst nv) (run_metrics r)) (successful_runs load 0 files))"
    and "snd nv \<noteq> []"
    and "\<exists>xs. nums_of (snd nv) = Inr xs"
proof -
  have d: "distinct (map fst (all_metrics st))"
    using files_loop_rows_keys(2)[OF assms(1)] by (simp add: init_state_def)
  with assms(2) have "map_of (all_metrics st) (fst nv) = Some (snd nv)"
    using map_of_is_SomeI[of "all_metrics st" "fst nv" "snd nv"] by simp
  then have "get_or (all_metrics st) (fst nv) [] = snd nv" by (simp add: get_or_def)
  with files_loop_state(2)[OF assms(1), of "fst nv"]
  show s: "snd nv = concat (map (\<lambda>r. values_for (fst nv) (run_metrics r)) (successful_runs load 0 files))"
    by (simp add: init_state_def get_or_def)
  from files_loop_state(5)[OF assms(1)] assms(2) show "snd nv \<noteq> []"
    by (auto simp: init_state_def)
  have "\<forall>v \<in> set (snd nv). num_of v \<noteq> None"
  proof
    fix v assume "v \<in> set (snd nv)"
    with s obtain r where r: "r \<in> set (successful_runs load 0 files)"
      "v \<in> set (values_for (fst nv) (run_metrics r))" by auto
    from r(2) have "v \<in> snd ` set (run_metrics r)" by (auto simp: values_for_def)
    with files_loop_state(6)[OF assms(1)] r(1) show "num_of v \<noteq> None" by blast
  qed
  then show "\<exists>xs. nums_of (snd nv) = Inr xs" by (rule nums_of_numeric)
qed




lemma loop_rows:
  assumes l: "files_loop load 0 files init_state = (evs, Inr st)"
  shows "map (\<lambda>row. map_of row ''Run'') (individual_run_data st)
           = map (\<lambda>r. Some (CInt (int (run_no r)))) (successful_runs load 0 files)"
    and "map (map fst) (individual_run_data st)
           = map (\<lambda>r. ''Run'' # map (\<lambda>kv. annotated (run_units r) (fst kv)) (run_metrics r))
               (successful_runs load 0 files)"
proof -
  from files_loop_state(1)[OF l]
  show "map (\<lambda>row. map_of row ''Run'') (individual_run_data st)
           = map (\<lambda>r. Some (CInt (int (run_no r)))) (successful_runs load 0 files)"
    by (simp add: init_state_def)
  have "\<forall>r \<in> set (successful_runs load 0 files).
          fold add_fieldname (map (\<lambda>kv. annotated (run_units r) (fst kv)) (run_metrics r)) [''Run'']
            = ''Run'' # map (\<lambda>kv. annotated (run_units r) (fst kv)) (run_metrics r)"
  proof
    fix r assume "r \<in> set (successful_runs load 0 files)"
    from successful_runs_shape[OF this] obtain job_data where
      "job_metrics job_data = Inr (run_metrics r, run_units r)" by blast
    then show "fold add_fieldname (map (\<lambda>kv. annotated (run_units r) (fst kv)) (run_metrics r)) [''Run'']
            = ''Run'' # map (\<lambda>kv. annotated (run_units r) (fst kv)) (run_metrics r)"
      by (rule job_metrics_columns)
  qed
  then have "map (\<lambda>r. fold add_fieldname (map (\<lambda>kv. annotated (run_units r) (fst kv)) (run_metrics r)) [''Run''])
                 (successful_runs load 0 files)
           = map (\<lambda>r. ''Run'' # map (\<lambda>kv. annotated (run_units r) (fst kv)) (run_metrics r))
               (successful_runs load 0 files)"
    by (intro map_cong) auto
  with files_loop_rows_keys(1)[OF l]
  show "map (map fst) (individual_run_data st)
           = map (\<lambda>r. ''Run'' # map (\<lambda>kv. annotated (run_units r) (fst kv)) (run_metrics r))
               (successful_runs load 0 files)"
    by (simp add: init_state_def)
qed

lemma loop_runs_nonempty:
  assumes l: "files_loop load 0 files init_state = (evs, Inr st)" and "all_metrics st \<noteq> []"
  shows "successful_runs load 0 files \<noteq> []" and "individual_run_data st \<noteq> []"
proof -
  from assms(2) obtain nv where nv: "nv \<in> set (all_metrics st)" by (cases "all_metrics st") auto
  from loop_series(1,2)[OF l nv] show r: "successful_runs load 0 files \<noteq> []" by auto
  from loop_rows(1)[OF l] have "length (individual_run_data st) = length (successful_runs load 0 files)"
    by (metis length_map)
  with r show "individual_run_data st \<noteq> []" by auto
qed

lemma loop_metric_names:
  assumes l: "files_loop load 0 files init_state = (evs, Inr st)" and "all_metrics st \<noteq> []"
  shows "map fst (all_metrics st) = metric_names"
proof -
  have "fold add_fieldname (concat (map (\<lambda>r. map fst (run_metrics r)) (successful_runs load 0 files))) []
          = metric_names"
    using successful_runs_names[of _ load 0 files] loop_runs_nonempty(1)[OF assms]
    by (intro fold_names_runs) (auto simp: metric_names_def)
  with files_loop_series_keys[OF l] show ?thesis by (simp add: init_state_def)
qed

lemma loop_summary_rows:
  assumes l: "files_loop load 0 files init_state = (evs, Inr st)" and "all_metrics st \<noteq> []"
      and s: "summary_rows gum (all_metrics st) = Inr srows"
  shows "map Inr srows
           = map (\<lambda>name. summary_row gum name
                    (concat (map (\<lambda>r. values_for name (run_metrics r)) (successful_runs load 0 files))))
               metric_names"
proof -
  have "map (\<lambda>nv. summary_row gum (fst nv) (snd nv)) (all_metrics st)
          = map (\<lambda>nv. summary_row gum (fst nv)
                   (concat (map (\<lambda>r. values_for (fst nv) (run_metrics r)) (successful_runs load 0 files))))
              (all_metrics st)"
    using loop_series(1)[OF l] by (intro map_cong) auto
  also have "\<dots> = map (\<lambda>name. summary_row gum name
                    (concat (map (\<lambda>r. values_for name (run_metrics r)) (successful_runs load 0 files))))
               (map fst (all_metrics st))"
    by (simp add: comp_def)
  finally show ?thesis
    using summary_rows_map[OF s] loop_metric_names[OF assms(1,2)] by simp
qed

subsection \<open>The end-to-end scenario, evaluated\<close>

lemma parse_example_3:
  "parse_fio_output load_example ''fio-csv3.json'' = ([OpenRead ''fio-csv3.json''], Inr (metrics_no_latency, units_na))"
  by (simp add: parse_fio_output_def load_example_def doc_no_latency_def job_no_latency_def
        metrics_no_latency_def units_na_def py_defs)

lemma parse_example_2:
  "parse_fio_output load_example ''fio-csv2.json''
     = ([OpenRead ''fio-csv2.json'', Print ''Error: File not found at fio-csv2.json''], Inr ([], []))"
  by (simp add: parse_fio_output_def load_example_def)

lemmas fmt_defs = fmt2_def fmt2_real_def round_half_even_def str_nat.simps

lemma scenario_loop:
  "snd (files_loop load_example 0 scenario_files init_state) = Inr scenario_state"
  by (simp add: scenario_files_def process_file_def parse_example_1 parse_example_2 parse_example_3
        init_state_def scenario_state_def scenario_rows_def
        units_ms_def metrics_ns_us_def units_na_def metrics_no_latency_def
        fmt_defs get_or_def series_append_def Let_def units_update_def collect_latency_def
        split: prod.splits)

lemma scenario_runs:
  "successful_runs load_example 0 scenario_files
     = [\<lparr>run_no = 1, run_metrics = metrics_ns_us, run_units = units_ms\<rparr>,
        \<lparr>run_no = 3, run_metrics = metrics_no_latency, run_units = units_na\<rparr>]"
  by (simp add: scenario_files_def parse_example_1 parse_example_2 parse_example_3
        metrics_ns_us_def metrics_no_latency_def)

lemma fmt2_real_examples:
  "fmt2_real 0 = ''0.00''" "fmt2_real (1/8) = ''0.12''" "fmt2_real (1/4) = ''0.25''"
  "fmt2_real (1/2) = ''0.50''" "fmt2_real 1 = ''1.00''" "fmt2_real (3/2) = ''1.50''"
  "fmt2_real 2 = ''2.00''" "fmt2_real (5/2) = ''2.50''" "fmt2_real 3 = ''3.00''"
  "fmt2_real 4 = ''4.00''" "fmt2_real 5 = ''5.00''" "fmt2_real 256 = ''256.00''"
  "fmt2_real 384 = ''384.00''" "fmt2_real 512 = ''512.00''"
  by (simp_all add: fmt2_real_def round_half_even_def str_nat.simps)

lemma display_name_examples:
  "display_name ''cpu_usr'' = ''Cpu Usr''" "display_name ''cpu_sys'' = ''Cpu Sys''"
  "display_name ''cpu_total'' = ''Cpu Total''" "display_name ''bandwidth'' = ''Bandwidth''"
  "display_name ''avg_latency'' = ''Avg Latency''"
  "display_name ''stdev_latency'' = ''Stdev Latency''" "display_name ''iops'' = ''Iops''"
  by (simp_all add: display_name_def is_letter_def upper_char_def lower_char_def)

lemma summary_row_pair:
  assumes "num_of v = Some a" and "num_of w = Some b"
  shows "summary_row gum metric_name [v, w] =
           Inr [display_name metric_name, fmt2_real ((a + b) / 2), fmt2_real (sample_stdev [a, b]),
                get_or gum metric_name [], fmt2_real (min a b), fmt2_real (max a b)]"
proof -
  have "nums_of [v, w] = Inr [a, b]" using assms by simp
  from summary_row_numbers[OF this, of gum metric_name] show ?thesis
    by (simp add: mean_def min.commute max.commute)
qed

lemma scenario_aggregate: "aggregate scenario_state = Inr scenario_aggregated"
proof -
  have r: "summary_row units_na ''cpu_usr'' [PFloat 1.5, PFloat 2.5]
             = Inr [''Cpu Usr'', ''2.00'', fmt2_real (sample_stdev [1.5, 2.5]), ''%'', ''1.50'', ''2.50'']"
    "summary_row units_na ''cpu_sys'' [PFloat 0.5, PFloat 1.5]
             = Inr [''Cpu Sys'', ''1.00'', fmt2_real (sample_stdev [0.5, 1.5]), ''%'', ''0.50'', ''1.50'']"
    "summary_row units_na ''cpu_total'' [PFloat 2, PFloat 4]
             = Inr [''Cpu Total'', ''3.00'', fmt2_real (sample_stdev [2, 4]), ''%'', ''2.00'', ''4.00'']"
    "summary_row units_na ''bandwidth'' [PFloat 2, PFloat 1]
             = Inr [''Bandwidth'', ''1.50'', fmt2_real (sample_stdev [2, 1]), ''MiB/s'', ''1.00'', ''2.00'']"
    "summary_row units_na ''avg_latency'' [PFloat 5, PInt 0]
             = Inr [''Avg Latency'', ''2.50'', fmt2_real (sample_stdev [5, 0]), ''N/A'', ''0.00'', ''5.00'']"
    "summary_row units_na ''stdev_latency'' [PFloat 0.25, PInt 0]
             = Inr [''Stdev Latency'', ''0.12'', fmt2_real (sample_stdev [0.25, 0]), ''N/A'', ''0.00'', ''0.25'']"
    "summary_row units_na ''iops'' [PInt 512, PInt 256]
             = Inr [''Iops'', ''384.00'', fmt2_real (sample_stdev [512, 256]), ''ops/s'', ''256.00'', ''512.00'']"
    using summary_row_pair[of "PFloat 1.5" "1.5" "PFloat 2.5" "2.5" units_na "''cpu_usr''"]
          summary_row_pair[of "PFloat 0.5" "0.5" "PFloat 1.5" "1.5" units_na "''cpu_sys''"]
          summary_row_pair[of "PFloat 2" 2 "PFloat 4" 4 units_na "''cpu_total''"]
          summary_row_pair[of "PFloat 2" 2 "PFloat 1" 1 units_na "''bandwidth''"]
          summary_row_pair[of "PFloat 5" 5 "PInt 0" 0 units_na "''avg_latency''"]
          summary_row_pair[of "PFloat 0.25" "0.25" "PInt 0" 0 units_na "''stdev_latency''"]
          summary_row_pair[of "PInt 512" 512 "PInt 256" 256 units_na "''iops''"]
    by (simp_all add: display_name_examples fmt2_real_examples units_na_def get_or_def)
  have l: "latency_row ''Average Latency'' ''avg_latency'' units_na [PFloat 5]
             = Inr [[''Average Latency'', [], [], ''N/A'', ''5.00'', ''5.00'']]"
    "latency_row ''Standard Deviation Latency'' ''stdev_latency'' units_na [PFloat 0.25]
             = Inr [[''Standard Deviation Latency'', [], [], ''N/A'', ''0.25'', ''0.25'']]"
    by (simp_all add: latency_row_def py_min_def py_max_def fmt2_real_examples units_na_def get_or_def)
  show ?thesis
    using r l by (simp add: aggregate_def scenario_state_def scenario_aggregated_def)
qed

lemma run_files_scenario: "run_files 3 ''fio-csv'' = scenario_files"
  by (simp add: run_files_def scenario_files_def str_int_def str_nat.simps upto_rec1)

lemma scenario_csv_rows: "csv_rows scenario_rows scenario_aggregated = scenario_report"
  by (simp add: csv_rows_def scenario_rows_def scenario_report_def fieldnames_of_def
        add_fieldname_def render_row_def get_or_def str_int_def str_nat.simps)

lemma scenario_main:
  "\<exists>evs0. main load_example (\<lambda>p. None) 3 ''fio-csv'' ''fio_results.csv''
     = (Print (CHR 0x0A # ''--- Parsing FIO Output Files ---'') # evs0
          @ [OpenWrite ''fio_results.csv'', WriteRows ''fio_results.csv'' scenario_report,
             Print (CHR 0x0A # ''Results successfully written to fio_results.csv''),
             Print (CHR 0x0A # ''Combined FIO benchmark and parsing script completed.'')],
        None)"
proof -
  obtain evs0 where l: "files_loop load_example 0 scenario_files init_state = (evs0, Inr scenario_state)"
    using scenario_loop by (metis prod.collapse)
  have g: "generate_fio_filenames (PInt 3) (PStr ''fio-csv'') = Inr scenario_files"
    using generate_valid[of 3 "''fio-csv''"] by (simp add: run_files_scenario)
  have a: "all_metrics scenario_state \<noteq> []" "individual_run_data scenario_state = scenario_rows"
    by (simp_all add: scenario_state_def)
  show ?thesis
    by (rule exI[of _ evs0]) (simp add: main_def g l a scenario_aggregate scenario_csv_rows)
qed

section \<open>Claims about file names, the empty outcome and the summary row\<close>

text \<open>
  Claim C7: a non-positive iteration count, or an empty or non-string prefix, is
  rejected by \<^verbatim>\<open>generate_fio_filenames\<close> with a \<^verbatim>\<open>ValueError\<close> that names the
  argument, and \<^verbatim>\<open>main\<close> then ends with that error before any event, so no run
  document is opened; a valid configuration gives exactly \<^verbatim>\<open>num_iterations\<close> names,
  the \<open>i\<close>-th being the prefix, the run index \<open>i + 1\<close> and \<^verbatim>\<open>.json\<close>.
\<close>

theorem filenames_validated:
  "((int_of n = None \<or> (\<exists>k. int_of n = Some k \<and> k \<le> 0)) \<longrightarrow>
       generate_fio_filenames n pfx = Inl (ValueError ''num_iterations must be a positive integer.''))
   \<and> ((\<exists>k. int_of n = Some k \<and> 0 < k) \<and> ((\<forall>p. pfx \<noteq> PStr p) \<or> pfx = PStr []) \<longrightarrow>
       generate_fio_filenames n pfx = Inl (ValueError ''prefix must be a non-empty string.''))
   \<and> (iterations \<le> 0 \<longrightarrow>
       main load write_error iterations output_filepath csv_output
         = ([], Some (ValueError ''num_iterations must be a positive integer.'')))
   \<and> (0 < iterations \<and> output_filepath = [] \<longrightarrow>
       main load write_error iterations output_filepath csv_output
         = ([], Some (ValueError ''prefix must be a non-empty string.'')))
   \<and> (0 < k \<and> p \<noteq> [] \<longrightarrow>
       (\<exists>fs. generate_fio_filenames (PInt k) (PStr p) = Inr fs \<and> length fs = nat k
          \<and> (\<forall>i < nat k. fs ! i = p @ str_int (int i + 1) @ ''.json'')))"
proof (intro conjI impI)
  assume "int_of n = None \<or> (\<exists>k. int_of n = Some k \<and> k \<le> 0)"
  then show "generate_fio_filenames n pfx = Inl (ValueError ''num_iterations must be a positive integer.'')"
    by (auto simp: generate_fio_filenames_def)
next
  assume "(\<exists>k. int_of n = Some k \<and> 0 < k) \<and> ((\<forall>p. pfx \<noteq> PStr p) \<or> pfx = PStr [])"
  then show "generate_fio_filenames n pfx = Inl (ValueError ''prefix must be a non-empty string.'')"
    by (cases pfx) (auto simp: generate_fio_filenames_def)
next
  assume "iterations \<le> 0"
  then show "main load write_error iterations output_filepath csv_output
         = ([], Some (ValueError ''num_iterations must be a positive integer.''))"
    by (simp add: main_def generate_fio_filenames_def)
next
  assume "0 < iterations \<and> output_filepath = []"
  then show "main load write_error iterations output_filepath csv_output
         = ([], Some (ValueError ''prefix must be a non-empty string.''))"
    by (simp add: main_def generate_fio_filenames_def)
next
  assume kp: "0 < k \<and> p \<noteq> []"
  have "\<forall>i < nat k. run_files k p ! i = p @ str_int (int i + 1) @ ''.json''"
    by (auto simp: run_files_def add.commute)
  moreover have "length (run_files k p) = nat k"
    by (simp add: run_files_def)
  ultimately show "\<exists>fs. generate_fio_filenames (PInt k) (PStr p) = Inr fs \<and> length fs = nat k
          \<and> (\<forall>i < nat k. fs ! i = p @ str_int (int i + 1) @ ''.json'')"
    using generate_valid kp by auto
qed

theorem filenames_validated_witness:
  "generate_fio_filenames (PInt 0) (PStr ''fio-csv'')
     = Inl (ValueError ''num_iterations must be a positive integer.'')
   \<and> generate_fio_filenames (PInt 3) (PStr [])
     = Inl (ValueError ''prefix must be a non-empty string.'')
   \<and> main load_example (\<lambda>p. None) 0 ''fio-csv'' ''fio_results.csv''
     = ([], Some (ValueError ''num_iterations must be a positive integer.''))
   \<and> main load_example (\<lambda>p. None) 3 [] ''fio_results.csv''
     = ([], Some (ValueError ''prefix must be a non-empty string.''))
   \<and> generate_fio_filenames (PInt 3) (PStr ''fio-csv'')
     = Inr [''fio-csv1.json'', ''fio-csv2.json'', ''fio-csv3.json'']"
proof -
  note t = filenames_validated[of "PInt 0" "PStr ''fio-csv''" 0 load_example
             "\<lambda>p. None" "''fio-csv''" "''fio_results.csv''" 3 "''fio-csv''"]
  note u = filenames_validated[of "PInt 3" "PStr []" 3 load_example
             "\<lambda>p. None" "[]" "''fio_results.csv''" 3 "''fio-csv''"]
  from t have a: "generate_fio_filenames (PInt 0) (PStr ''fio-csv'')
     = Inl (ValueError ''num_iterations must be a positive integer.'')" by simp
  from u have b: "generate_fio_filenames (PInt 3) (PStr [])
     = Inl (ValueError ''prefix must be a non-empty string.'')" by simp
  from t have c: "main load_example (\<lambda>p. None) 0 ''fio-csv'' ''fio_results.csv''
     = ([], Some (ValueError ''num_iterations must be a positive integer.''))"
    by simp
  from u have d: "main load_example (\<lambda>p. None) 3 [] ''fio_results.csv''
     = ([], Some (ValueError ''prefix must be a non-empty string.''))"
    by simp
  from t obtain fs where fs: "generate_fio_filenames (PInt 3) (PStr ''fio-csv'') = Inr fs"
    "length fs = 3" "\<forall>i<3. fs ! i = ''fio-csv'' @ str_int (int i + 1) @ ''.json''"
    by auto
  from fs(3) have n: "fs ! 0 = ''fio-csv1.json''" "fs ! 1 = ''fio-csv2.json''" "fs ! 2 = ''fio-csv3.json''"
    by (simp_all add: str_int_def str_nat.simps)
  from fs(2) obtain x y z where "fs = [x, y, z]"
    by (auto simp: length_Suc_conv numeral_3_eq_3)
  with n have "fs = [''fio-csv1.json'', ''fio-csv2.json'', ''fio-csv3.json'']"
    by simp
  with a b c d fs(1) show ?thesis by simp
qed





section \<open>Claims about the series, the latency rows and the per-run table\<close>





text \<open>
  Claim C8: in a written report the per-run table has one row per run that yielded
  metrics, labelled with its run number; the keys of a row are \<^verbatim>\<open>Run\<close> and the metric
  names of that run, each annotated with its unit; the header is the union of these
  keys in first-seen order (so a metric that carries different units in different runs
  has one column per unit); the cell of a row under a column is the row's value for
  that key, or empty when the row has none, at the position of the column.  The summary
  table has one row per metric name, computed from the values of exactly the runs that
  yielded metrics.
\<close>

theorem per_run_table:
  assumes "main load write_error iterations output_filepath csv_output = (evs, res)"
      and "WriteRows path report \<in> set evs"
  shows "\<exists>rows gum srows lrows.
           report = [[''Individual Run Metrics''], fieldnames_of rows]
                      @ map (render_row (fieldnames_of rows)) rows
                      @ [[], [''Aggregated Metrics''],
                         [''Metric'', ''Average'', ''Std Dev'', ''Unit'', ''Min'', ''Max'']]
                      @ srows @ lrows
         \<and> map (\<lambda>row. map_of row ''Run'') rows
             = map (\<lambda>r. Some (CInt (int (run_no r))))
                 (successful_runs load 0 (run_files iterations output_filepath))
         \<and> map (map fst) rows
             = map (\<lambda>r. ''Run'' # map (\<lambda>kv. annotated (run_units r) (fst kv)) (run_metrics r))
                 (successful_runs load 0 (run_files iterations output_filepath))
         \<and> fieldnames_of rows = first_seen (''Run'' # concat (map (map fst) rows))
         \<and> (\<forall>row \<in> set rows.
               length (render_row (fieldnames_of rows) row) = length (fieldnames_of rows)
             \<and> (\<forall>j < length (fieldnames_of rows).
                   render_row (fieldnames_of rows) row ! j
                     = (case map_of row (fieldnames_of rows ! j) of
                          None \<Rightarrow> [] | Some c \<Rightarrow> render_cell c)))
         \<and> map Inr srows
             = map (\<lambda>name. summary_row gum name
                      (concat (map (\<lambda>r. values_for name (run_metrics r))
                                 (successful_runs load 0 (run_files iterations output_filepath)))))
                 metric_names"
proof -
  from main_report[OF assms] obtain evs0 st agg where
    l: "files_loop load 0 (run_files iterations output_filepath) init_state = (evs0, Inr st)"
    and ne: "all_metrics st \<noteq> []"
    and a: "aggregate st = Inr agg"
    and r: "report = csv_rows (individual_run_data st) agg"
    by blast
  from aggregate_Inr[OF a] obtain srows arows drows where
    s: "summary_rows (global_units_map st) (all_metrics st) = Inr srows"
    and g: "agg = [''Metric'', ''Average'', ''Std Dev'', ''Unit'', ''Min'', ''Max''] # srows @ arows @ drows"
    by blast
  let ?rows = "individual_run_data st"
  have c1: "report = [[''Individual Run Metrics''], fieldnames_of ?rows]
                      @ map (render_row (fieldnames_of ?rows)) ?rows
                      @ [[], [''Aggregated Metrics''],
                         [''Metric'', ''Average'', ''Std Dev'', ''Unit'', ''Min'', ''Max'']]
                      @ srows @ (arows @ drows)"
    using r g loop_runs_nonempty(2)[OF l ne] by (simp add: csv_rows_def)
  have c5: "\<forall>row \<in> set ?rows.
               length (render_row (fieldnames_of ?rows) row) = length (fieldnames_of ?rows)
             \<and> (\<forall>j < length (fieldnames_of ?rows).
                   render_row (fieldnames_of ?rows) row ! j
                     = (case map_of row (fieldnames_of ?rows ! j) of
                          None \<Rightarrow> [] | Some c \<Rightarrow> render_cell c))"
    by (simp add: render_row_nth)
  from c1 loop_rows(1)[OF l] loop_rows(2)[OF l] fieldnames_of_first_seen[of ?rows] c5
       loop_summary_rows[OF l ne s]
  show ?thesis
    by (intro exI[of _ ?rows] exI[of _ "global_units_map st"] exI[of _ srows]
              exI[of _ "arows @ drows"] conjI)
qed

text \<open>The scenario of the claim: three documents, run 2 missing.  The report has two
  per-run rows, for runs 1 and 3, and each summary row is computed from two values.\<close>

theorem per_run_table_witness:
  "(\<exists>evs. main load_example (\<lambda>p. None) 3 ''fio-csv'' ''fio_results.csv'' = (evs, None)
          \<and> WriteRows ''fio_results.csv'' scenario_report \<in> set evs)
   \<and> (\<exists>rows gum srows lrows.
         scenario_report = [[''Individual Run Metrics''], fieldnames_of rows]
                      @ map (render_row (fieldnames_of rows)) rows
                      @ [[], [''Aggregated Metrics''],
                         [''Metric'', ''Average'', ''Std Dev'', ''Unit'', ''Min'', ''Max'']]
                      @ srows @ lrows
       \<and> map (\<lambda>row. map_of row ''Run'') rows = [Some (CInt 1), Some (CInt 3)]
       \<and> map Inr srows
             = [summary_row gum ''cpu_usr'' [PFloat 1.5, PFloat 2.5],
                summary_row gum ''cpu_sys'' [PFloat 0.5, PFloat 1.5],
                summary_row gum ''cpu_total'' [PFloat 2, PFloat 4],
                summary_row gum ''bandwidth'' [PFloat 2, PFloat 1],
                summary_row gum ''avg_latency'' [PFloat 5, PInt 0],
                summary_row gum ''stdev_latency'' [PFloat 0.25, PInt 0],
                summary_row gum ''iops'' [PInt 512, PInt 256]])
   \<and> take 5 scenario_report
       = [[''Individual Run Metrics''],
          [''Run'', ''cpu_usr (%)'', ''cpu_sys (%)'', ''cpu_total (%)'', ''bandwidth (MiB/s)'',
           ''avg_latency (ms)'', ''stdev_latency (ms)'', ''iops (ops/s)'',
           ''avg_latency (N/A)'', ''stdev_latency (N/A)''],
          [''1'', ''1.50'', ''0.50'', ''2.00'', ''2.00'', ''5.00'', ''0.25'', ''512.00'', [], []],
          [''3'', ''2.50'', ''1.50'', ''4.00'', ''1.00'', [], [], ''256.00'', ''0.00'', ''0.00''],
          []]"
proof -
  from scenario_main obtain evs0 where
    m: "main load_example (\<lambda>p. None) 3 ''fio-csv'' ''fio_results.csv''
     = (Print (CHR 0x0A # ''--- Parsing FIO Output Files ---'') # evs0
          @ [OpenWrite ''fio_results.csv'', WriteRows ''fio_results.csv'' scenario_report,
             Print (CHR 0x0A # ''Results successfully written to fio_results.csv''),
             Print (CHR 0x0A # ''Combined FIO benchmark and parsing script completed.'')],
        None)" by blast
  have w: "WriteRows ''fio_results.csv'' scenario_report
             \<in> set (Print (CHR 0x0A # ''--- Parsing FIO Output Files ---'') # evs0
          @ [OpenWrite ''fio_results.csv'', WriteRows ''fio_results.csv'' scenario_report,
             Print (CHR 0x0A # ''Results successfully written to fio_results.csv''),
             Print (CHR 0x0A # ''Combined FIO benchmark and parsing script completed.'')])"
    by simp
  from per_run_table[OF m w] obtain rows gum srows lrows where
    a: "scenario_report = [[''Individual Run Metrics''], fieldnames_of rows]
                      @ map (render_row (fieldnames_of rows)) rows
                      @ [[], [''Aggregated Metrics''],
                         [''Metric'', ''Average'', ''Std Dev'', ''Unit'', ''Min'', ''Max'']]
                      @ srows @ lrows"
    and b: "map (\<lambda>row. map_of row ''Run'') rows
             = map (\<lambda>r. Some (CInt (int (run_no r))))
                 (successful_runs load_example 0 (run_files 3 ''fio-csv''))"
    and c: "map Inr srows
             = map (\<lambda>name. summary_row gum name
                      (concat (map (\<lambda>r. values_for name (run_metrics r))
                                 (successful_runs load_example 0 (run_files 3 ''fio-csv'')))))
                 metric_names"
    by blast
  from b have b': "map (\<lambda>row. map_of row ''Run'') rows = [Some (CInt 1), Some (CInt 3)]"
    unfolding run_files_scenario scenario_runs by simp
  from c have c': "map Inr srows
             = [summary_row gum ''cpu_usr'' [PFloat 1.5, PFloat 2.5],
                summary_row gum ''cpu_sys'' [PFloat 0.5, PFloat 1.5],
                summary_row gum ''cpu_total'' [PFloat 2, PFloat 4],
                summary_row gum ''bandwidth'' [PFloat 2, PFloat 1],
                summary_row gum ''avg_latency'' [PFloat 5, PInt 0],
                summary_row gum ''stdev_latency'' [PFloat 0.25, PInt 0],
                summary_row gum ''iops'' [PInt 512, PInt 256]]"
    unfolding run_files_scenario scenario_runs
    by (simp add: metric_names_def values_for_def metrics_ns_us_def metrics_no_latency_def)
  have d: "take 5 scenario_report
       = [[''Individual Run Metrics''],
          [''Run'', ''cpu_usr (%)'', ''cpu_sys (%)'', ''cpu_total (%)'', ''bandwidth (MiB/s)'',
           ''avg_latency (ms)'', ''stdev_latency (ms)'', ''iops (ops/s)'',
           ''avg_latency (N/A)'', ''stdev_latency (N/A)''],
          [''1'', ''1.50'', ''0.50'', ''2.00'', ''2.00'', ''5.00'', ''0.25'', ''512.00'', [], []],
          [''3'', ''2.50'', ''1.50'', ''4.00'', ''1.00'', [], [], ''256.00'', ''0.00'', ''0.00''],
          []]"
    by (simp add: scenario_report_def)
  from m w have e: "\<exists>evs. main load_example (\<lambda>p. None) 3 ''fio-csv'' ''fio_results.csv'' = (evs, None)
          \<and> WriteRows ''fio_results.csv'' scenario_report \<in> set evs"
    by blast
  from a b' c' have f: "\<exists>rows gum srows lrows.
         scenario_report = [[''Individual Run Metrics''], fieldnames_of rows]
                      @ map (render_row (fieldnames_of rows)) rows
                      @ [[], [''Aggregated Metrics''],
                         [''Metric'', ''Average'', ''Std Dev'', ''Unit'', ''Min'', ''Max'']]
                      @ srows @ lrows
       \<and> map (\<lambda>row. map_of row ''Run'') rows = [Some (CInt 1), Some (CInt 3)]
       \<and> map Inr srows
             = [summary_row gum ''cpu_usr'' [PFloat 1.5, PFloat 2.5],
                summary_row gum ''cpu_sys'' [PFloat 0.5, PFloat 1.5],
                summary_row gum ''cpu_total'' [PFloat 2, PFloat 4],
                summary_row gum ''bandwidth'' [PFloat 2, PFloat 1],
                summary_row gum ''avg_latency'' [PFloat 5, PInt 0],
                summary_row gum ''stdev_latency'' [PFloat 0.25, PInt 0],
                summary_row gum ''iops'' [PInt 512, PInt 256]]"
    by (intro exI[of _ rows] exI[of _ gum] exI[of _ srows] exI[of _ lrows] conjI)
  from e f d show ?thesis by (intro conjI)
qed

end
